theory Spec2Isabelle
  imports Main "HOL-Library.Sublist"
begin

section \<open>Strings and exceptions shared by both scripts\<close>

text \<open>
  A Python \<open>str\<close> is modelled as a \<open>string\<close> whose characters are the code points
  0..255 (the Latin-1 part of Unicode). On that range \<open>str.isspace\<close> holds of exactly
  the twelve code points listed in \<open>isspace\<close>, the regular-expression class \<open>\d\<close>
  holds of the ASCII digits only, and \<open>[A-Z]\<close> of the ASCII capitals. An exception is a
  value of \<open>py_exception\<close>, named after its Python class; \<open>OtherError\<close> stands for an
  exception whose class depends on the version of a library.
\<close>

datatype py_exception =
    IndexError string
  | StopIteration
  | ValueError string
  | RuntimeError string
  | FileNotFoundError string
  | EmptyDataError string
  | ParserError string
  | OperationalError string
  | ProgrammingError string
  | IntegrityError string
  | OtherError string

text \<open>\<open>str(e)\<close>, as the f-strings of the scripts render an exception.\<close>

fun exc_str :: "py_exception \<Rightarrow> string" where
  "exc_str (IndexError m) = m"
| "exc_str StopIteration = []"
| "exc_str (ValueError m) = m"
| "exc_str (RuntimeError m) = m"
| "exc_str (FileNotFoundError m) = m"
| "exc_str (EmptyDataError m) = m"
| "exc_str (ParserError m) = m"
| "exc_str (OperationalError m) = m"
| "exc_str (ProgrammingError m) = m"
| "exc_str (IntegrityError m) = m"
| "exc_str (OtherError m) = m"

definition isspace :: "char \<Rightarrow> bool" where
  "isspace c = (c \<in> set [CHR 0x09, CHR 0x0A, CHR 0x0B, CHR 0x0C, CHR 0x0D,
                          CHR 0x1C, CHR 0x1D, CHR 0x1E, CHR 0x1F, CHR 0x20,
                          CHR 0x85, CHR 0xA0])"

definition isdigit :: "char \<Rightarrow> bool" where
  "isdigit c = (c \<in> set ''0123456789'')"

definition isupper_ascii :: "char \<Rightarrow> bool" where
  "isupper_ascii c = (c \<in> set ''ABCDEFGHIJKLMNOPQRSTUVWXYZ'')"

text \<open>\<open>str(n)\<close> for a non-negative integer: its decimal digits.\<close>

fun str_nat :: "nat \<Rightarrow> string" where
  "str_nat n = (if n < 10 then [''0123456789'' ! n]
                else str_nat (n div 10) @ [''0123456789'' ! (n mod 10)])"

declare str_nat.simps [simp del]

text \<open>The format \<open>{n:,}\<close>: the decimal digits in groups of three, separated by commas.\<close>

definition three_digits :: "nat \<Rightarrow> string" where
  "three_digits n = [''0123456789'' ! (n div 100 mod 10), ''0123456789'' ! (n div 10 mod 10),
                     ''0123456789'' ! (n mod 10)]"

fun str_nat_commas :: "nat \<Rightarrow> string" where
  "str_nat_commas n = (if n < 1000 then str_nat n
                       else str_nat_commas (n div 1000) @ '','' @ three_digits (n mod 1000))"

declare str_nat_commas.simps [simp del]

text \<open>
  \<open>line.split()\<close> with no argument: the maximal runs of non-whitespace characters, in
  order; leading, trailing and repeated whitespace produce no empty token. \<open>cur\<close> is the
  token being scanned.
\<close>

fun split_acc :: "string \<Rightarrow> string \<Rightarrow> string list" where
  "split_acc cur [] = (if cur = [] then [] else [cur])"
| "split_acc cur (c # cs) =
     (if isspace c then (if cur = [] then split_acc [] cs else cur # split_acc [] cs)
      else split_acc (cur @ [c]) cs)"

definition str_split :: "string \<Rightarrow> string list" where
  "str_split line = split_acc [] line"

text \<open>\<open>sep.join(xs)\<close>.\<close>

fun str_join :: "string \<Rightarrow> string list \<Rightarrow> string" where
  "str_join sep [] = []"
| "str_join sep [x] = x"
| "str_join sep (x # y # ys) = x @ sep @ str_join sep (y # ys)"

text \<open>\<open>s.strip()\<close> and \<open>s.startswith(p)\<close>.\<close>

definition str_strip :: "string \<Rightarrow> string" where
  "str_strip s = rev (dropWhile isspace (rev (dropWhile isspace s)))"

fun str_startswith :: "string \<Rightarrow> string \<Rightarrow> bool" where
  "str_startswith s [] = True"
| "str_startswith [] (p # ps) = False"
| "str_startswith (c # cs) (p # ps) = (c = p \<and> str_startswith cs ps)"


section \<open>The extractor: \<open>parse_VEA.py\<close>\<close>

subsection \<open>The date pattern\<close>

text \<open>
  The pattern \<open>\d{2}-[A-Z]{3}-\d{4}\<close> is a sequence of eleven single-character classes.
  \<open>re.match\<close> anchors it at the start of the token and nowhere else: \<open>re_match\<close> consumes
  one character per class and ignores what follows the last class.
\<close>

definition date_pattern :: "(char \<Rightarrow> bool) list" where
  "date_pattern = replicate 2 isdigit @ [\<lambda>c. c = CHR ''-''] @ replicate 3 isupper_ascii
                  @ [\<lambda>c. c = CHR ''-''] @ replicate 4 isdigit"

fun re_match :: "(char \<Rightarrow> bool) list \<Rightarrow> string \<Rightarrow> bool" where
  "re_match [] s = True"
| "re_match (p # ps) [] = False"
| "re_match (p # ps) (c # cs) = (p c \<and> re_match ps cs)"

definition date_match :: "string \<Rightarrow> bool" where
  "date_match token = re_match date_pattern token"

subsection \<open>\<open>parse_data_line\<close>\<close>

text \<open>
  \<open>next(i for i, token in enumerate(tokens) if ...)\<close>: the index of the first token that
  satisfies the test, counted from index 0; \<open>None\<close> is the exhausted generator, on which
  \<open>next\<close> raises \<open>StopIteration\<close>.
\<close>

fun first_index :: "('a \<Rightarrow> bool) \<Rightarrow> 'a list \<Rightarrow> nat option" where
  "first_index P [] = None"
| "first_index P (x # xs) =
     (if P x then Some 0 else map_option Suc (first_index P xs))"

text \<open>The dictionary that \<open>parse_data_line\<close> returns, with its keys in insertion order.\<close>

type_synonym row = "(string \<times> string) list"

definition parse_data_line :: "string \<Rightarrow> py_exception + row" where
  "parse_data_line line =
    (let tokens = str_split line in
     case tokens of
       [] \<Rightarrow> Inl (IndexError ''list index out of range'')
     | icva_id # _ \<Rightarrow>
        (case first_index date_match tokens of
           None \<Rightarrow> Inl StopIteration
         | Some date_index \<Rightarrow>
            (let name_tokens = drop 1 (take date_index tokens);
                 full_name = str_join '' '' name_tokens;
                 test_date = tokens ! date_index;
                 scores = drop (date_index + 1) tokens
             in if length scores \<noteq> 7
                then Inl (ValueError (''Expected 7 scores, got '' @ str_nat (length scores)
                                      @ '' in line: '' @ line))
                else Inr [(''ICVA ID'', icva_id),
                          (''Full Name'', full_name),
                          (''Test Date'', test_date),
                          (''Scale Score'', scores ! 0),
                          (''Total Percent Correct'', scores ! 1),
                          (''Anatomy'', scores ! 2),
                          (''Physiology'', scores ! 3),
                          (''Pharmacology'', scores ! 4),
                          (''Microbiology'', scores ! 5),
                          (''Pathology'', scores ! 6)])))"

subsection \<open>The per-line loop of \<open>main\<close>\<close>

text \<open>
  \<open>data_lines\<close>: the stripped lines that start with the sentinel \<open>ICVA\<close>. The loop state is
  \<open>parsed_rows\<close> and the lines printed so far; \<open>except Exception\<close> catches every exception
  that \<open>parse_data_line\<close> can raise, prints it and goes on to the next line.
\<close>

definition data_lines :: "string list \<Rightarrow> string list" where
  "data_lines lines =
     map str_strip (filter (\<lambda>line. str_startswith (str_strip line) ''ICVA'') lines)"

fun parse_step :: "row list \<times> string list \<Rightarrow> string \<Rightarrow> row list \<times> string list" where
  "parse_step (parsed_rows, out) line =
     (case parse_data_line line of
        Inr row \<Rightarrow> (parsed_rows @ [row], out)
      | Inl e \<Rightarrow> (parsed_rows,
                  out @ [''Error parsing line: '' @ line @ [CHR 0x0A] @ exc_str e]))"

definition parse_loop :: "string list \<Rightarrow> row list \<times> string list" where
  "parse_loop lines = foldl parse_step ([], []) lines"

subsection \<open>Writing \<open>parsed_data.csv\<close>\<close>

text \<open>
  \<open>csv.DictWriter\<close> with its default dialect: fields separated by commas, records ended
  by CR LF, and a field enclosed in double quotes (with every double quote in it doubled)
  exactly when it contains a comma, a double quote, a CR or a LF. A record that consists
  of one empty field is written as a pair of quotes.
\<close>

definition fieldnames :: "string list" where
  "fieldnames = [''ICVA ID'', ''Full Name'', ''Test Date'', ''Scale Score'',
                 ''Total Percent Correct'', ''Anatomy'', ''Physiology'', ''Pharmacology'',
                 ''Microbiology'', ''Pathology'']"

definition csv_special :: "char \<Rightarrow> bool" where
  "csv_special c = (c = CHR '','' \<or> c = CHR 0x22 \<or> c = CHR 0x0D \<or> c = CHR 0x0A)"

fun csv_escape :: "string \<Rightarrow> string" where
  "csv_escape [] = []"
| "csv_escape (c # cs) = (if c = CHR 0x22 then CHR 0x22 # CHR 0x22 # csv_escape cs
                          else c # csv_escape cs)"

definition csv_field :: "string \<Rightarrow> string" where
  "csv_field f = (if list_ex csv_special f then [CHR 0x22] @ csv_escape f @ [CHR 0x22] else f)"

definition csv_writerow :: "string list \<Rightarrow> string" where
  "csv_writerow fields =
     (if fields = [[]] then [CHR 0x22, CHR 0x22] else str_join '','' (map csv_field fields))
     @ [CHR 0x0D, CHR 0x0A]"

text \<open>
  \<open>DictWriter.writerow\<close>: a key of the row that is not a field name raises \<open>ValueError\<close>;
  a field name that the row lacks is written as the empty string.
\<close>

definition dict_to_list :: "string list \<Rightarrow> row \<Rightarrow> py_exception + string list" where
  "dict_to_list names rowdict =
     (if list_ex (\<lambda>k. k \<notin> set names) (map fst rowdict)
      then Inl (ValueError ''dict contains fields not in fieldnames'')
      else Inr (map (\<lambda>k. case map_of rowdict k of None \<Rightarrow> [] | Some v \<Rightarrow> v) names))"

fun write_rows :: "string list \<Rightarrow> row list \<Rightarrow> py_exception + string" where
  "write_rows names [] = Inr []"
| "write_rows names (r # rs) =
     (case dict_to_list names r of
        Inl e \<Rightarrow> Inl e
      | Inr fields \<Rightarrow>
         (case write_rows names rs of
            Inl e \<Rightarrow> Inl e
          | Inr text \<Rightarrow> Inr (csv_writerow fields @ text)))"

text \<open>\<open>writeheader\<close> followed by one \<open>writerow\<close> per parsed row: the text of the file.\<close>

definition write_csv :: "row list \<Rightarrow> py_exception + string" where
  "write_csv parsed_rows =
     (case write_rows fieldnames parsed_rows of
        Inl e \<Rightarrow> Inl e
      | Inr text \<Rightarrow> Inr (csv_writerow fieldnames @ text))"

subsection \<open>\<open>main\<close> of the extractor\<close>

text \<open>
  \<open>str.splitlines\<close>: a line ends at LF, CR, CR LF, VT, FF, FS, GS, RS or NEL; the line ends
  are dropped, and a text that ends with a line end has no empty last line.
\<close>

definition linebreak :: "char \<Rightarrow> bool" where
  "linebreak c = (c \<in> set [CHR 0x0A, CHR 0x0B, CHR 0x0C, CHR 0x0D, CHR 0x1C, CHR 0x1D,
                            CHR 0x1E, CHR 0x85])"

fun splitlines_acc :: "string \<Rightarrow> string \<Rightarrow> string list" where
  "splitlines_acc cur [] = (if cur = [] then [] else [cur])"
| "splitlines_acc cur [c] = (if linebreak c then [cur] else [cur @ [c]])"
| "splitlines_acc cur (c # d # cs) =
     (if c = CHR 0x0D \<and> d = CHR 0x0A then cur # splitlines_acc [] cs
      else if linebreak c then cur # splitlines_acc [] (d # cs)
      else splitlines_acc (cur @ [c]) (d # cs))"

definition str_splitlines :: "string \<Rightarrow> string list" where
  "str_splitlines s = splitlines_acc [] s"

text \<open>
  The script from the text of the pages on: the text of all pages, each followed by a
  newline; the candidate lines; the per-line loop; the message on the number of students;
  the file. The result is the text written to \<open>parsed_data.csv\<close> and the lines printed.
\<close>

definition expected_students :: nat where
  "expected_students = 107"

definition extractor_main :: "string list \<Rightarrow> (py_exception + string) \<times> string list" where
  "extractor_main pages =
     (let full_text = concat (map (\<lambda>page. page @ [CHR 0x0A]) pages);
          lines = str_splitlines full_text;
          (parsed_rows, out) = parse_loop (data_lines lines);
          out1 = out @ [if length parsed_rows \<noteq> expected_students
                        then ''Warning: Expected '' @ str_nat expected_students
                             @ '' students, but parsed '' @ str_nat (length parsed_rows) @ ''.''
                        else ''Successfully parsed '' @ str_nat (length parsed_rows)
                             @ '' students.'']
      in case write_csv parsed_rows of
           Inl e \<Rightarrow> (Inl e, out1)
         | Inr text \<Rightarrow> (Inr text, out1 @ [''Data saved to parsed_data.csv'']))"


section \<open>The loader: \<open>load_VEA_to_database.py\<close>\<close>

subsection \<open>\<open>load_env\<close>\<close>

text \<open>
  \<open>load_dotenv()\<close> adds the settings of the file \<open>.env\<close> (when there is one) to the process
  environment without replacing a variable that is already set; the file is taken as the
  list of its key-value pairs, a later pair for a key replacing an earlier one.
  \<open>os.getenv\<close> then reads the environment, \<open>None\<close> for a variable that is not set.
\<close>

definition load_dotenv ::
  "(string \<times> string) list option \<Rightarrow> (string \<rightharpoonup> string) \<Rightarrow> (string \<rightharpoonup> string)" where
  "load_dotenv dotenv_file environ =
     (case dotenv_file of None \<Rightarrow> environ | Some kvs \<Rightarrow> map_of (rev kvs) ++ environ)"

text \<open>The dictionary \<open>cfg\<close>, with its keys in insertion order; \<open>None\<close> is Python's \<open>None\<close>.\<close>

type_synonym config = "(string \<times> string option) list"

definition load_env ::
  "(string \<times> string) list option \<Rightarrow> (string \<rightharpoonup> string) \<Rightarrow> py_exception + config" where
  "load_env dotenv_file environ =
     (let getenv = load_dotenv dotenv_file environ;
          cfg = [(''host'', getenv ''DB_HOST''),
                 (''user'', getenv ''DB_USER''),
                 (''password'', getenv ''DB_PASS''),
                 (''database'', getenv ''DB_NAME''),
                 (''table'', getenv ''DB_TABLE'')];
          missing = map fst (filter (\<lambda>(k, v). (v = None \<or> v = Some []) \<and> k \<noteq> ''table'') cfg)
      in if missing \<noteq> []
         then Inl (RuntimeError (''Missing required env vars: '' @ str_join '', '' missing))
         else Inr cfg)"

text \<open>\<open>cfg[key]\<close> inside an f-string: \<open>None\<close> is rendered as the text \<open>None\<close>.\<close>

definition cfg_str :: "config \<Rightarrow> string \<Rightarrow> string" where
  "cfg_str cfg key = (case map_of cfg key of Some (Some v) \<Rightarrow> v | _ \<Rightarrow> ''None'')"

subsection \<open>Data frames and \<open>read_csv\<close>\<close>

text \<open>
  A data frame is the list of its columns, each a name and the cells of the column. A
  cell is a missing value, a text or a calendar date (year, month, day). The types that
  pandas infers for the columns of a file are not modelled: a cell read from a file keeps
  the text of its field.
\<close>

datatype cell = NaN | Text string | Date nat nat nat

type_synonym dataframe = "(string \<times> cell list) list"

definition nrows :: "dataframe \<Rightarrow> nat" where
  "nrows df = (case df of [] \<Rightarrow> 0 | (name, col) # _ \<Rightarrow> length col)"

text \<open>
  The tokenizer of \<open>pandas.read_csv\<close> with its default options, a library function outside
  the sources: a state machine over the characters of the file. Fields are separated by
  commas and records by LF, CR or CR LF; a field that starts with a double quote runs to
  the closing quote, a doubled quote standing for one quote; empty lines and lines of
  blanks and tabs are skipped. \<open>field\<close> is the field being read and \<open>row\<close> the fields of
  the record read so far. Where the C code processes a character again in another state,
  the function calls itself on the same input in that state; a line that starts with
  blanks and holds something else is read again from its start, which the model does by
  keeping the blanks as the start of its first field.
\<close>

datatype tstate =
    START_RECORD | START_FIELD | IN_FIELD | IN_QUOTED_FIELD | QUOTE_IN_QUOTED_FIELD
  | EAT_CRNL | EAT_CRNL_NOP | WHITESPACE_LINE

fun handle_eof :: "tstate \<Rightarrow> string \<Rightarrow> string list \<Rightarrow> py_exception + string list list" where
  "handle_eof START_RECORD field row = Inr []"
| "handle_eof WHITESPACE_LINE field row = Inr []"
| "handle_eof EAT_CRNL_NOP field row = Inr []"
| "handle_eof IN_QUOTED_FIELD field row = Inl (ParserError ''EOF inside string'')"
| "handle_eof START_FIELD field row = Inr [row @ [field]]"
| "handle_eof IN_FIELD field row = Inr [row @ [field]]"
| "handle_eof QUOTE_IN_QUOTED_FIELD field row = Inr [row @ [field]]"
| "handle_eof EAT_CRNL field row = Inr [row]"

definition end_line ::
  "string list \<Rightarrow> py_exception + string list list \<Rightarrow> py_exception + string list list" where
  "end_line row rest = (case rest of Inl e \<Rightarrow> Inl e | Inr rows \<Rightarrow> Inr (row # rows))"

definition tstate_rank :: "tstate \<Rightarrow> nat" where
  "tstate_rank st = (if st = EAT_CRNL \<or> st = EAT_CRNL_NOP then 2
                     else if st = START_RECORD \<or> st = WHITESPACE_LINE then 1 else 0)"

function tokenize ::
  "tstate \<Rightarrow> string \<Rightarrow> string list \<Rightarrow> string \<Rightarrow> py_exception + string list list" where
  "tokenize st field row [] = handle_eof st field row"
| "tokenize START_RECORD field row (c # cs) =
     (if c = CHR 0x0A then tokenize START_RECORD [] [] cs
      else if c = CHR 0x0D then tokenize EAT_CRNL_NOP [] [] cs
      else if c = CHR '' '' \<or> c = CHR 0x09 then tokenize WHITESPACE_LINE [c] [] cs
      else tokenize START_FIELD [] [] (c # cs))"
| "tokenize START_FIELD field row (c # cs) =
     (if c = CHR 0x0A then end_line (row @ [[]]) (tokenize START_RECORD [] [] cs)
      else if c = CHR 0x0D then tokenize EAT_CRNL [] (row @ [[]]) cs
      else if c = CHR 0x22 then tokenize IN_QUOTED_FIELD [] row cs
      else if c = CHR '','' then tokenize START_FIELD [] (row @ [[]]) cs
      else tokenize IN_FIELD [c] row cs)"
| "tokenize IN_FIELD field row (c # cs) =
     (if c = CHR 0x0A then end_line (row @ [field]) (tokenize START_RECORD [] [] cs)
      else if c = CHR 0x0D then tokenize EAT_CRNL [] (row @ [field]) cs
      else if c = CHR '','' then tokenize START_FIELD [] (row @ [field]) cs
      else tokenize IN_FIELD (field @ [c]) row cs)"
| "tokenize IN_QUOTED_FIELD field row (c # cs) =
     (if c = CHR 0x22 then tokenize QUOTE_IN_QUOTED_FIELD field row cs
      else tokenize IN_QUOTED_FIELD (field @ [c]) row cs)"
| "tokenize QUOTE_IN_QUOTED_FIELD field row (c # cs) =
     (if c = CHR 0x22 then tokenize IN_QUOTED_FIELD (field @ [c]) row cs
      else if c = CHR '','' then tokenize START_FIELD [] (row @ [field]) cs
      else if c = CHR 0x0A then end_line (row @ [field]) (tokenize START_RECORD [] [] cs)
      else if c = CHR 0x0D then tokenize EAT_CRNL [] (row @ [field]) cs
      else tokenize IN_FIELD (field @ [c]) row cs)"
| "tokenize EAT_CRNL field row (c # cs) =
     (if c = CHR 0x0A then end_line row (tokenize START_RECORD [] [] cs)
      else if c = CHR '','' then end_line row (tokenize START_FIELD [] [[]] cs)
      else end_line row (tokenize START_RECORD [] [] (c # cs)))"
| "tokenize EAT_CRNL_NOP field row (c # cs) =
     (if c = CHR 0x0A \<or> c = CHR '','' then tokenize START_RECORD [] [] cs
      else tokenize START_RECORD [] [] (c # cs))"
| "tokenize WHITESPACE_LINE field row (c # cs) =
     (if c = CHR 0x0A then tokenize START_RECORD [] [] cs
      else if c = CHR 0x0D then tokenize EAT_CRNL_NOP [] [] cs
      else if c = CHR '' '' \<or> c = CHR 0x09 then tokenize WHITESPACE_LINE (field @ [c]) [] cs
      else tokenize IN_FIELD field [] (c # cs))"
  by pat_completeness auto
termination
  by (relation "measure (\<lambda>(st, field, row, s). 3 * length s + tstate_rank st)")
     (auto simp: tstate_rank_def)

text \<open>
  The texts that \<open>read_csv\<close> takes for a missing value by default, whether the field was
  quoted or not.
\<close>

definition na_values :: "string list" where
  "na_values = [[], ''#N/A'', ''#N/A N/A'', ''#NA'', ''-1.#IND'', ''-1.#QNAN'', ''-NaN'',
                ''-nan'', ''1.#IND'', ''1.#QNAN'', ''<NA>'', ''N/A'', ''NA'', ''NULL'', ''NaN'',
                ''None'', ''n/a'', ''nan'', ''null'']"

definition na_cell :: "string \<Rightarrow> cell" where
  "na_cell field = (if field \<in> set na_values then NaN else Text field)"

text \<open>
  \<open>read_csv\<close> on the text of a file: the first record gives the column names, each later
  record one row; a record with fewer fields than the header is filled with missing
  values. Not modelled: the renaming of repeated or empty column names, and a first column
  taken as the index when records are longer than the header (reported here as the
  \<open>ParserError\<close> that pandas raises for a longer record further down the file).
\<close>

definition read_csv_text :: "string \<Rightarrow> py_exception + dataframe" where
  "read_csv_text text =
     (case tokenize START_RECORD [] [] text of
        Inl e \<Rightarrow> Inl e
      | Inr [] \<Rightarrow> Inl (EmptyDataError ''No columns to parse from file'')
      | Inr (header # records) \<Rightarrow>
          if list_ex (\<lambda>r. length header < length r) records
          then Inl (ParserError ''Error tokenizing data'')
          else Inr (map (\<lambda>k. (header ! k,
                              map (\<lambda>r. if k < length r then na_cell (r ! k) else NaN) records))
                        [0..<length header]))"

definition read_csv :: "(string \<rightharpoonup> string) \<Rightarrow> string \<Rightarrow> py_exception + dataframe" where
  "read_csv files csv_path =
     (case files csv_path of
        None \<Rightarrow> Inl (FileNotFoundError csv_path)
      | Some text \<Rightarrow> read_csv_text text)"

subsection \<open>The date column\<close>

text \<open>
  \<open>pd.to_datetime(column, format="%d-%b-%Y").dt.date\<close>, cell by cell, a library function
  outside the sources. The format is a day of one or two digits (or a blank and a digit),
  the English three-letter abbreviation of a month in any case, and a year of four digits,
  with hyphens between them and nothing before or after them; the day must exist in that
  month. A missing value stays missing. A text that does not fit raises \<open>ValueError\<close>.
  The bounds that pandas puts on the year are not modelled.
\<close>

definition digit_val :: "char \<Rightarrow> nat option" where
  "digit_val c = map_of (zip ''0123456789'' [0..<10]) c"

fun digits_val :: "nat \<Rightarrow> string \<Rightarrow> nat option" where
  "digits_val acc [] = Some acc"
| "digits_val acc (c # cs) =
     (case digit_val c of None \<Rightarrow> None | Some d \<Rightarrow> digits_val (10 * acc + d) cs)"

definition lower_ascii :: "char \<Rightarrow> char" where
  "lower_ascii c =
     (case map_of (zip ''ABCDEFGHIJKLMNOPQRSTUVWXYZ'' ''abcdefghijklmnopqrstuvwxyz'') c of
        None \<Rightarrow> c | Some l \<Rightarrow> l)"

definition month_index :: "string \<Rightarrow> nat option" where
  "month_index name =
     map_of (zip [''jan'', ''feb'', ''mar'', ''apr'', ''may'', ''jun'',
                  ''jul'', ''aug'', ''sep'', ''oct'', ''nov'', ''dec''] [1..<13])
            (map lower_ascii name)"

definition days_in_month :: "nat \<Rightarrow> nat \<Rightarrow> nat" where
  "days_in_month y m =
     (if m = 2 then (if y mod 4 = 0 \<and> (y mod 100 \<noteq> 0 \<or> y mod 400 = 0) then 29 else 28)
      else if m \<in> set [4, 6, 9, 11] then 30 else 31)"

fun split_on :: "char \<Rightarrow> string \<Rightarrow> string \<Rightarrow> string list" where
  "split_on sep cur [] = [cur]"
| "split_on sep cur (c # cs) =
     (if c = sep then cur # split_on sep [] cs else split_on sep (cur @ [c]) cs)"

definition strptime_dmy :: "string \<Rightarrow> (nat \<times> nat \<times> nat) option" where
  "strptime_dmy s =
     (case split_on CHR ''-'' [] s of
        [dd, mon, yyyy] \<Rightarrow>
          (if dd = [] \<or> 2 < length dd \<or> length yyyy \<noteq> 4 then None
           else case (digits_val 0 (if length dd = 2 \<and> hd dd = CHR '' '' then tl dd else dd),
                      month_index mon, digits_val 0 yyyy) of
                  (Some d, Some m, Some y) \<Rightarrow>
                    (if 1 \<le> d \<and> d \<le> days_in_month y m \<and> 1 \<le> y then Some (y, m, d)
                     else None)
                | _ \<Rightarrow> None)
      | _ \<Rightarrow> None)"

definition to_date :: "cell \<Rightarrow> py_exception + cell" where
  "to_date c =
     (case c of
        NaN \<Rightarrow> Inr NaN
      | Date y m d \<Rightarrow> Inr (Date y m d)
      | Text s \<Rightarrow>
         (case strptime_dmy s of
            None \<Rightarrow> Inl (ValueError (''time data '' @ s @ '' does not match format %d-%b-%Y''))
          | Some (y, m, d) \<Rightarrow> Inr (Date y m d)))"

text \<open>A conversion applied to the cells of a column; the first cell that fails raises.\<close>

fun convert_column :: "(cell \<Rightarrow> py_exception + cell) \<Rightarrow> cell list \<Rightarrow> py_exception + cell list" where
  "convert_column conv [] = Inr []"
| "convert_column conv (c # cs) =
     (case conv c of
        Inl e \<Rightarrow> Inl e
      | Inr d \<Rightarrow> (case convert_column conv cs of Inl e \<Rightarrow> Inl e | Inr ds \<Rightarrow> Inr (d # ds)))"

text \<open>\<open>df[name] = col\<close> for a column that the frame has: the column is replaced in place.\<close>

definition set_column :: "string \<Rightarrow> cell list \<Rightarrow> dataframe \<Rightarrow> dataframe" where
  "set_column name col df = map (\<lambda>(n, old). if n = name then (n, col) else (n, old)) df"

text \<open>
  Lines 77 and 78 of the loader: when the frame has a column \<open>test_date\<close>, the column is
  replaced by its conversion; otherwise nothing happens. \<open>conv\<close> is the conversion of one
  cell, \<open>to_date\<close> in \<open>main\<close>.
\<close>

definition normalize_dates ::
  "(cell \<Rightarrow> py_exception + cell) \<Rightarrow> dataframe \<Rightarrow> py_exception + dataframe" where
  "normalize_dates conv df =
     (case map_of df ''test_date'' of
        None \<Rightarrow> Inr df
      | Some col \<Rightarrow>
         (case convert_column conv col of
            Inl e \<Rightarrow> Inl e
          | Inr dates \<Rightarrow> Inr (set_column ''test_date'' dates df)))"

subsection \<open>The destination table\<close>

text \<open>
  The storage layer is outside the sources; the model gives the statements that the loader
  sends their SQL meaning. A table has its columns, its primary-key column if it has one,
  and its rows; a database is a map from table names to tables. Column types and lengths
  are not modelled, and the server is taken to run in strict mode.
\<close>

record table =
  tcolumns :: "string list"
  tprimary :: "string option"
  trows :: "(string \<times> cell) list list"

type_synonym database = "string \<rightharpoonup> table"

text \<open>
  \<open>create_table\<close>: \<open>CREATE TABLE IF NOT EXISTS\<close> with the fixed schema of the loader, whose
  primary key is \<open>icva_id\<close>. The name is put between backticks as it is: a name that is not
  an identifier (empty, longer than 64 characters, ending in a blank, or holding a
  backtick or a NUL) makes the statement fail.
\<close>

definition vea_table :: table where
  "vea_table = \<lparr>tcolumns = [''icva_id'', ''full_name'', ''test_date'', ''vea_score'',
                            ''vea_percentage'', ''vea_anatomy'', ''vea_physiology'',
                            ''vea_pharmacology'', ''vea_microbiology'', ''vea_pathology''],
                tprimary = Some ''icva_id'',
                trows = []\<rparr>"

definition valid_table_name :: "string \<Rightarrow> bool" where
  "valid_table_name name =
     (name \<noteq> [] \<and> length name \<le> 64 \<and> last name \<noteq> CHR '' ''
      \<and> CHR 0x60 \<notin> set name \<and> CHR 0x00 \<notin> set name)"

definition create_table :: "string \<Rightarrow> database \<Rightarrow> py_exception + database" where
  "create_table table_name db =
     (case db table_name of
        Some t \<Rightarrow> Inr db
      | None \<Rightarrow> if valid_table_name table_name then Inr (db(table_name \<mapsto> vea_table))
                else Inl (ProgrammingError ''Incorrect table name''))"

text \<open>The rows of a frame, each as the list of its column names and values.\<close>

definition df_rows :: "dataframe \<Rightarrow> (string \<times> cell) list list" where
  "df_rows df = map (\<lambda>i. map (\<lambda>(name, col). (name, col ! i)) df) [0..<nrows df]"

text \<open>
  \<open>df.to_sql(name, if_exists="append", index=False, method="multi")\<close> inside
  \<open>engine.begin()\<close>: all rows of the frame go into one \<open>INSERT\<close> statement in one
  transaction, so the statement either appends every row or raises and leaves the table as
  it was. Nothing in the call filters rows or replaces existing ones. The statement raises
  when the frame has a column that the table lacks, when a row has no value for the
  primary key, and when the primary key of a row is that of a row of the table or of
  another row of the frame. A frame without rows is not sent. A table that does not exist
  is created from the frame, without a primary key.
\<close>

definition to_sql_append :: "string \<Rightarrow> dataframe \<Rightarrow> database \<Rightarrow> py_exception + database" where
  "to_sql_append name df db =
     (case db name of
        None \<Rightarrow> Inr (db(name \<mapsto> \<lparr>tcolumns = map fst df, tprimary = None, trows = df_rows df\<rparr>))
      | Some t \<Rightarrow>
         (if nrows df = 0 then Inr db
          else if list_ex (\<lambda>c. c \<notin> set (tcolumns t)) (map fst df)
          then Inl (OperationalError ''Unknown column'')
          else case tprimary t of
                 None \<Rightarrow> Inr (db(name \<mapsto> t\<lparr>trows := trows t @ df_rows df\<rparr>))
               | Some k \<Rightarrow>
                  (let new_keys = map (\<lambda>r. map_of r k) (df_rows df);
                       old_keys = map (\<lambda>r. map_of r k) (trows t)
                   in if list_ex (\<lambda>v. v = None) new_keys
                      then Inl (OperationalError ''Field has no default value'')
                      else if list_ex (\<lambda>v. v = Some NaN) new_keys
                      then Inl (IntegrityError ''Column cannot be null'')
                      else if list_ex (\<lambda>v. v \<in> set old_keys) new_keys
                      then Inl (IntegrityError ''Duplicate entry for key PRIMARY'')
                      else if distinct new_keys
                      then Inr (db(name \<mapsto> t\<lparr>trows := trows t @ df_rows df\<rparr>))
                      else Inl (IntegrityError ''Duplicate entry for key PRIMARY''))))"

subsection \<open>\<open>main\<close> of the loader\<close>

text \<open>
  The world of the loader: the process environment, the file \<open>.env\<close>, the files by path,
  the tables of the database that the engine URL names (the URL is taken to be well formed
  and the server reachable), the lines printed on the output stream and on the error
  stream, and the log of the accesses to the settings file, to the CSV file and to the
  database, in the order in which they happen.
\<close>

datatype io_event = CsvExists string | ReadSettings | ReadCsv string | DbConnect string

record world =
  environ :: "string \<rightharpoonup> string"
  dotenv :: "(string \<times> string) list option"
  files :: "string \<rightharpoonup> string"
  database :: database
  stdout :: "string list"
  stderr :: "string list"
  io_log :: "io_event list"

text \<open>
  \<open>main(csv_path)\<close>, which the entry block below calls once it has found that the path
  exists. An exception leaves \<open>main\<close> at the statement that raises it: the result is the exception
  and the world as it is at that point. \<open>create_engine\<close> opens no
  connection; \<open>create_table\<close> and the insertion open one each with \<open>engine.begin()\<close>.
  \<open>create_table\<close> formats \<open>cfg["table"]\<close> into its statement, so that \<open>None\<close> becomes the
  name \<open>None\<close>; \<open>to_sql\<close> is handed \<open>cfg["table"]\<close> itself and, when that is \<open>None\<close>, raises
  without writing a row. The check mark that starts the last line printed lies outside
  Latin-1 and is given by its three UTF-8 bytes.
\<close>

definition main :: "string \<Rightarrow> world \<Rightarrow> (py_exception + unit) \<times> world" where
  "main csv_path w =
     (let w1 = w\<lparr>environ := load_dotenv (dotenv w) (environ w),
                 io_log := io_log w @ [ReadSettings]\<rparr>
      in case load_env (dotenv w) (environ w) of
           Inl e \<Rightarrow> (Inl e, w1)
         | Inr cfg \<Rightarrow>
            (let engine_url = ''mysql+pymysql://'' @ cfg_str cfg ''user'' @ '':''
                              @ cfg_str cfg ''password'' @ ''@'' @ cfg_str cfg ''host''
                              @ ''/'' @ cfg_str cfg ''database'';
                 w2 = w1\<lparr>io_log := io_log w1 @ [ReadCsv csv_path]\<rparr>
             in case read_csv (files w) csv_path of
                  Inl e \<Rightarrow> (Inl e, w2)
                | Inr df0 \<Rightarrow>
                   (case normalize_dates to_date df0 of
                      Inl e \<Rightarrow> (Inl e, w2)
                    | Inr df \<Rightarrow>
                       (let w3 = w2\<lparr>io_log := io_log w2 @ [DbConnect engine_url]\<rparr>
                        in case create_table (cfg_str cfg ''table'') (database w3) of
                             Inl e \<Rightarrow> (Inl e, w3)
                           | Inr db1 \<Rightarrow>
                              (let w4 = w3\<lparr>database := db1,
                                           io_log := io_log w3 @ [DbConnect engine_url]\<rparr>
                               in case (case map_of cfg ''table'' of
                                          Some (Some name) \<Rightarrow> to_sql_append name df db1
                                        | _ \<Rightarrow> Inl (OtherError ''to_sql: the table name is None''))
                                  of Inl e \<Rightarrow> (Inl e, w4)
                                   | Inr db2 \<Rightarrow>
                                      (Inr (),
                                       w4\<lparr>database := db2,
                                          stdout := stdout w4
                                            @ [[CHR 0xE2, CHR 0x9C, CHR 0x85] @ '' Loaded ''
                                               @ str_nat_commas (nrows df)
                                               @ '' rows into `'' @ cfg_str cfg ''table''
                                               @ ''`.'']\<rparr>))))))"

subsection \<open>The entry block of the loader\<close>

text \<open>
  Lines 97 to 113, the block under \<open>if __name__ == "__main__"\<close>, which is what runs when the
  loader is started. The command line is taken as parsed: \<open>csv_arg\<close> is the value of \<open>--csv\<close>,
  \<open>None\<close> when the flag is not given, in which case the path is \<open>vea_2025_results.csv\<close>.
  The block first tests that the path exists. When it does not, it prints one line on the
  error stream and calls \<open>sys.exit(1)\<close>: \<open>main\<close> is not called, so no setting is read.
  Otherwise it calls \<open>main\<close>: the loader ends normally when \<open>main\<close> returns and with the
  exception when \<open>main\<close> raises one. The cross that starts the line on the error stream
  lies outside Latin-1 and is given by its three UTF-8 bytes.
\<close>

datatype outcome = Returned | Raised py_exception | SysExit nat

definition default_csv :: string where
  "default_csv = ''vea_2025_results.csv''"

definition loader_script :: "string option \<Rightarrow> world \<Rightarrow> outcome \<times> world" where
  "loader_script csv_arg w =
     (let csv = (case csv_arg of None \<Rightarrow> default_csv | Some path \<Rightarrow> path);
          w0 = w\<lparr>io_log := io_log w @ [CsvExists csv]\<rparr>
      in if files w csv = None
         then (SysExit 1,
               w0\<lparr>stderr := stderr w0 @ [[CHR 0xE2, CHR 0x9D, CHR 0x8C] @ '' CSV file ''
                                            @ [CHR 0x27] @ csv @ [CHR 0x27] @ '' not found.'']\<rparr>)
         else case main csv w0 of
                (Inl e, w') \<Rightarrow> (Raised e, w')
              | (Inr u, w') \<Rightarrow> (Returned, w'))"


section \<open>Sample inputs\<close>

text \<open>A settings file that lacks the password and gives an empty database name.\<close>

definition world_missing_settings :: world where
  "world_missing_settings =
     \<lparr>environ = Map.empty,
      dotenv = Some [(''DB_HOST'', ''cvmdb.westernu.edu''), (''DB_USER'', ''loader''),
                     (''DB_NAME'', [])],
      files = map_of [(''vea_2025_results.csv'', ''icva_id,full_name'')],
      database = Map.empty,
      stdout = [],
      stderr = [],
      io_log = []\<rparr>"

text \<open>The same settings file in a directory where the CSV file does not exist.\<close>

definition world_missing_settings_no_csv :: world where
  "world_missing_settings_no_csv = world_missing_settings\<lparr>files := Map.empty\<rparr>"

definition frame_without_date :: dataframe where
  "frame_without_date =
     [(''ICVA ID'', [Text ''ICVA0001'']), (''Test Date'', [Text ''15-MAY-2025''])]"

definition frame_with_date :: dataframe where
  "frame_with_date =
     [(''icva_id'', [Text ''ICVA0001'', Text ''ICVA0002'']),
      (''test_date'', [Text ''15-MAY-2025'', Text ''16-may-2025'']),
      (''vea_score'', [Text ''450'', Text ''460''])]"

text \<open>
  A complete configuration, a table that holds \<open>ICVA0001\<close>, and a file of two rows, the
  second of which has that id.
\<close>

definition world_duplicate_id :: world where
  "world_duplicate_id =
     \<lparr>environ = Map.empty,
      dotenv = Some [(''DB_HOST'', ''cvmdb.westernu.edu''), (''DB_USER'', ''loader''),
                     (''DB_PASS'', ''secret''), (''DB_NAME'', ''cvm_prod''),
                     (''DB_TABLE'', ''vea_2025'')],
      files = map_of [(''vea_2025_results.csv'',
                       ''icva_id,full_name'' @ [CHR 0x0A]
                       @ ''ICVA0002,Bob Roe'' @ [CHR 0x0A]
                       @ ''ICVA0001,Ann Poe'' @ [CHR 0x0A])],
      database = map_of [(''vea_2025'',
                          vea_table\<lparr>trows := [[(''icva_id'', Text ''ICVA0001''),
                                                (''full_name'', Text ''Ann Lee'')]]\<rparr>)],
      stdout = [],
      stderr = [],
      io_log = []\<rparr>"

text \<open>Two parsed records; the name of the second holds a double quote and a comma.\<close>

definition sample_rows :: "row list" where
  "sample_rows =
     [[(''ICVA ID'', ''ICVA0001''), (''Full Name'', ''Jane Q Public''),
       (''Test Date'', ''15-MAY-2025''), (''Scale Score'', ''450''),
       (''Total Percent Correct'', ''88''), (''Anatomy'', ''90''), (''Physiology'', ''85''),
       (''Pharmacology'', ''92''), (''Microbiology'', ''88''), (''Pathology'', ''91'')],
      [(''ICVA ID'', ''ICVA0002''), (''Full Name'', ''O\"Neil, Bob''),
       (''Test Date'', ''16-MAY-2025''), (''Scale Score'', ''451''),
       (''Total Percent Correct'', ''87''), (''Anatomy'', ''89''), (''Physiology'', ''84''),
       (''Pharmacology'', ''91''), (''Microbiology'', ''87''), (''Pathology'', ''90'')]]"

section \<open>Properties of the extractor\<close>

subsection \<open>Auxiliary facts\<close>

lemma first_index_append:
  "\<forall>t\<in>set pre. \<not> P t \<Longrightarrow> P d \<Longrightarrow> first_index P (pre @ d # post) = Some (length pre)"
  by (induction pre) auto

lemma first_index_None: "first_index P xs = None \<longleftrightarrow> (\<forall>x\<in>set xs. \<not> P x)"
  by (induction xs) auto

lemma parse_data_line_at:
  assumes "str_split line = pre @ d # post" and "\<forall>t\<in>set pre. \<not> date_match t" and "date_match d"
  shows "parse_data_line line =
     (if length post \<noteq> 7
      then Inl (ValueError (''Expected 7 scores, got '' @ str_nat (length post) @ '' in line: '' @ line))
      else Inr [(''ICVA ID'', hd (pre @ [d])),
                (''Full Name'', str_join '' '' (tl pre)),
                (''Test Date'', d),
                (''Scale Score'', post ! 0),
                (''Total Percent Correct'', post ! 1),
                (''Anatomy'', post ! 2),
                (''Physiology'', post ! 3),
                (''Pharmacology'', post ! 4),
                (''Microbiology'', post ! 5),
                (''Pathology'', post ! 6)])"
proof -
  obtain t ts where tts: "str_split line = t # ts" and t: "t = hd (pre @ [d])"
    using assms(1) by (cases pre) auto
  have eq: "t # ts = pre @ d # post"
    using assms(1) tts by simp
  have fi: "first_index date_match (t # ts) = Some (length pre)"
    unfolding eq using assms(2,3) by (rule first_index_append)
  have nm: "drop 1 (take (length pre) (t # ts)) = tl pre"
    unfolding eq by (simp add: drop_Suc)
  have dt: "(t # ts) ! length pre = d"
    unfolding eq by simp
  have sc: "drop (length pre + 1) (t # ts) = post"
    unfolding eq by simp
  show ?thesis
    unfolding parse_data_line_def tts Let_def list.case fi option.case nm dt sc
    by (simp add: t)
qed

lemma parse_data_line_no_date:
  assumes "str_split line \<noteq> []" and "\<forall>t\<in>set (str_split line). \<not> date_match t"
  shows "parse_data_line line = Inl StopIteration"
proof -
  have "first_index date_match (str_split line) = None"
    using assms(2) by (simp add: first_index_None)
  with assms(1) show ?thesis
    by (auto simp: parse_data_line_def Let_def split: list.splits)
qed

lemma parse_step_foldl:
  "foldl parse_step (rows, out) lines =
     (rows @ List.map_filter (\<lambda>l. case parse_data_line l of Inr r \<Rightarrow> Some r | Inl e \<Rightarrow> None) lines,
      out @ List.map_filter (\<lambda>l. case parse_data_line l of Inr r \<Rightarrow> None
             | Inl e \<Rightarrow> Some (''Error parsing line: '' @ l @ [CHR 0x0A] @ exc_str e)) lines)"
proof (induction lines arbitrary: rows out)
  case Nil
  show ?case by (simp add: List.map_filter_simps)
next
  case (Cons l ls)
  show ?case
    by (cases "parse_data_line l") (simp_all add: Cons.IH List.map_filter_simps)
qed

lemma split_acc_nonempty: "cur \<noteq> [] \<Longrightarrow> split_acc cur s \<noteq> []"
  by (induction s arbitrary: cur) auto

lemma startswith_split_nonempty:
  assumes "str_startswith line ''ICVA''" shows "str_split line \<noteq> []"
proof -
  obtain rest where "line = CHR ''I'' # rest"
    using assms by (cases line) auto
  then show ?thesis
    by (simp add: str_split_def isspace_def split_acc_nonempty)
qed

lemma data_lines_startswith: "l \<in> set (data_lines lines) \<Longrightarrow> str_startswith l ''ICVA''"
  by (auto simp: data_lines_def)

lemma re_match_append: "re_match ps s \<Longrightarrow> re_match ps (s @ extra)"
  by (induction ps s rule: re_match.induct) auto

lemma parse_loop_eq:
  "parse_loop lines =
     (List.map_filter (\<lambda>l. case parse_data_line l of Inr r \<Rightarrow> Some r | Inl e \<Rightarrow> None) lines,
      List.map_filter (\<lambda>l. case parse_data_line l of Inr r \<Rightarrow> None
             | Inl e \<Rightarrow> Some (''Error parsing line: '' @ l @ [CHR 0x0A] @ exc_str e)) lines)"
  by (simp add: parse_loop_def parse_step_foldl)

lemma re_match_Cons: "re_match (p # ps) s \<longleftrightarrow> (\<exists>c cs. s = c # cs \<and> p c \<and> re_match ps cs)"
  by (cases s) auto

lemma date_pattern_unfold:
  "date_pattern = [isdigit, isdigit, \<lambda>c. c = CHR ''-'', isupper_ascii, isupper_ascii, isupper_ascii,
                   \<lambda>c. c = CHR ''-'', isdigit, isdigit, isdigit, isdigit]"
  by (simp add: date_pattern_def numeral_2_eq_2 numeral_3_eq_3 eval_nat_numeral)


lemma re_match_ConsE:
  assumes "re_match (p # ps) s"
  obtains c cs where "s = c # cs" and "p c" and "re_match ps cs"
  using assms by (cases s) auto

lemma date_match_iff:
  "date_match token \<longleftrightarrow>
     (\<exists>d1 d2 u1 u2 u3 y1 y2 y3 y4 rest.
        token = d1 # d2 # CHR ''-'' # u1 # u2 # u3 # CHR ''-'' # y1 # y2 # y3 # y4 # rest
        \<and> isdigit d1 \<and> isdigit d2 \<and> isupper_ascii u1 \<and> isupper_ascii u2 \<and> isupper_ascii u3
        \<and> isdigit y1 \<and> isdigit y2 \<and> isdigit y3 \<and> isdigit y4)"
proof
  assume "date_match token"
  then have "re_match [isdigit, isdigit, \<lambda>c. c = CHR ''-'', isupper_ascii, isupper_ascii,
                       isupper_ascii, \<lambda>c. c = CHR ''-'', isdigit, isdigit, isdigit, isdigit] token"
    by (simp only: date_match_def date_pattern_unfold)
  then show "\<exists>d1 d2 u1 u2 u3 y1 y2 y3 y4 rest.
        token = d1 # d2 # CHR ''-'' # u1 # u2 # u3 # CHR ''-'' # y1 # y2 # y3 # y4 # rest
        \<and> isdigit d1 \<and> isdigit d2 \<and> isupper_ascii u1 \<and> isupper_ascii u2 \<and> isupper_ascii u3
        \<and> isdigit y1 \<and> isdigit y2 \<and> isdigit y3 \<and> isdigit y4"
    by (elim re_match_ConsE) simp
next
  assume "\<exists>d1 d2 u1 u2 u3 y1 y2 y3 y4 rest.
        token = d1 # d2 # CHR ''-'' # u1 # u2 # u3 # CHR ''-'' # y1 # y2 # y3 # y4 # rest
        \<and> isdigit d1 \<and> isdigit d2 \<and> isupper_ascii u1 \<and> isupper_ascii u2 \<and> isupper_ascii u3
        \<and> isdigit y1 \<and> isdigit y2 \<and> isdigit y3 \<and> isdigit y4"
  then show "date_match token"
    by (auto simp only: date_match_def date_pattern_unfold re_match.simps)
qed

subsection \<open>Claim C1: a line of the expected shape\<close>

text \<open>
  C1. Let the whitespace tokens of a line be an id, any number of name tokens, a date token
  and seven further tokens, where the date token is the first token of the line that
  matches the date pattern. Then \<open>parse_data_line\<close> returns the record whose id is the
  first token, whose full name is the name tokens joined by single spaces, whose test date
  is the date token and whose seven score fields are the seven trailing tokens in order.
  On the line of the specification it returns id \<open>ICVA0001\<close>, name \<open>Jane Q Public\<close>,
  date \<open>15-MAY-2025\<close> and scores 450, 88, 90, 85, 92, 88, 91.
\<close>

theorem parse_data_line_valid_shape:
  "(\<forall>line tid names d s0 s1 s2 s3 s4 s5 s6.
      str_split line = tid # names @ d # [s0, s1, s2, s3, s4, s5, s6]
      \<and> \<not> date_match tid \<and> (\<forall>n\<in>set names. \<not> date_match n) \<and> date_match d
      \<longrightarrow> parse_data_line line =
            Inr [(''ICVA ID'', tid), (''Full Name'', str_join '' '' names), (''Test Date'', d),
                 (''Scale Score'', s0), (''Total Percent Correct'', s1), (''Anatomy'', s2),
                 (''Physiology'', s3), (''Pharmacology'', s4), (''Microbiology'', s5),
                 (''Pathology'', s6)])
   \<and> parse_data_line ''ICVA0001 Jane Q Public 15-MAY-2025 450 88 90 85 92 88 91'' =
       Inr [(''ICVA ID'', ''ICVA0001''), (''Full Name'', ''Jane Q Public''),
            (''Test Date'', ''15-MAY-2025''),
            (''Scale Score'', ''450''), (''Total Percent Correct'', ''88''), (''Anatomy'', ''90''),
            (''Physiology'', ''85''), (''Pharmacology'', ''92''), (''Microbiology'', ''88''),
            (''Pathology'', ''91'')]"
proof (intro conjI allI impI)
  fix line tid names d s0 s1 s2 s3 s4 s5 s6
  assume h: "str_split line = tid # names @ d # [s0, s1, s2, s3, s4, s5, s6]
      \<and> \<not> date_match tid \<and> (\<forall>n\<in>set names. \<not> date_match n) \<and> date_match d"
  then have sp: "str_split line = (tid # names) @ d # [s0, s1, s2, s3, s4, s5, s6]"
    and pre: "\<forall>t\<in>set (tid # names). \<not> date_match t" and d: "date_match d"
    by simp_all
  show "parse_data_line line =
            Inr [(''ICVA ID'', tid), (''Full Name'', str_join '' '' names), (''Test Date'', d),
                 (''Scale Score'', s0), (''Total Percent Correct'', s1), (''Anatomy'', s2),
                 (''Physiology'', s3), (''Pharmacology'', s4), (''Microbiology'', s5),
                 (''Pathology'', s6)]"
    by (simp add: parse_data_line_at [OF sp pre d])
next
  show "parse_data_line ''ICVA0001 Jane Q Public 15-MAY-2025 450 88 90 85 92 88 91'' =
       Inr [(''ICVA ID'', ''ICVA0001''), (''Full Name'', ''Jane Q Public''),
            (''Test Date'', ''15-MAY-2025''),
            (''Scale Score'', ''450''), (''Total Percent Correct'', ''88''), (''Anatomy'', ''90''),
            (''Physiology'', ''85''), (''Pharmacology'', ''92''), (''Microbiology'', ''88''),
            (''Pathology'', ''91'')]"
    by code_simp
qed

text \<open>The theorem applied to a line with a doubled blank and a two-word name.\<close>

theorem parse_data_line_valid_shape_witness:
  "str_split ''ICVA0042  Ada Lovelace 01-JAN-2024 500 70 71 72 73 74 75'' =
     ''ICVA0042'' # [''Ada'', ''Lovelace''] @ ''01-JAN-2024'' # [''500'', ''70'', ''71'', ''72'', ''73'', ''74'', ''75'']
   \<and> \<not> date_match ''ICVA0042'' \<and> \<not> date_match ''Ada'' \<and> \<not> date_match ''Lovelace''
   \<and> date_match ''01-JAN-2024''
   \<and> parse_data_line ''ICVA0042  Ada Lovelace 01-JAN-2024 500 70 71 72 73 74 75'' =
       Inr [(''ICVA ID'', ''ICVA0042''), (''Full Name'', ''Ada Lovelace''),
            (''Test Date'', ''01-JAN-2024''),
            (''Scale Score'', ''500''), (''Total Percent Correct'', ''70''), (''Anatomy'', ''71''),
            (''Physiology'', ''72''), (''Pharmacology'', ''73''), (''Microbiology'', ''74''),
            (''Pathology'', ''75'')]"
proof -
  have h: "str_split ''ICVA0042  Ada Lovelace 01-JAN-2024 500 70 71 72 73 74 75'' =
     ''ICVA0042'' # [''Ada'', ''Lovelace''] @ ''01-JAN-2024'' # [''500'', ''70'', ''71'', ''72'', ''73'', ''74'', ''75'']
   \<and> \<not> date_match ''ICVA0042'' \<and> \<not> date_match ''Ada'' \<and> \<not> date_match ''Lovelace''
   \<and> date_match ''01-JAN-2024''"
    by code_simp
  have b: "\<forall>n\<in>set [''Ada'', ''Lovelace'']. \<not> date_match n"
    using h by simp
  have "parse_data_line ''ICVA0042  Ada Lovelace 01-JAN-2024 500 70 71 72 73 74 75'' =
       Inr [(''ICVA ID'', ''ICVA0042''), (''Full Name'', str_join '' '' [''Ada'', ''Lovelace'']),
            (''Test Date'', ''01-JAN-2024''),
            (''Scale Score'', ''500''), (''Total Percent Correct'', ''70''), (''Anatomy'', ''71''),
            (''Physiology'', ''72''), (''Pharmacology'', ''73''), (''Microbiology'', ''74''),
            (''Pathology'', ''75'')]"
    by (rule parse_data_line_valid_shape [THEN conjunct1, rule_format]) (use h b in simp)
  then show ?thesis using h by simp
qed

subsection \<open>Claim C2: exactly seven trailing tokens\<close>

lemma tokens_after_first_date:
  assumes "\<forall>t\<in>set pre. \<not> date_match t" and "date_match d"
  shows "tl (dropWhile (\<lambda>t. \<not> date_match t) (pre @ d # post)) = post"
proof -
  have "dropWhile (\<lambda>t. \<not> date_match t) (pre @ d # post) = d # post"
    using assms by (induction pre) auto
  then show ?thesis by simp
qed

text \<open>
  C2. Let a line contain a token that matches the date pattern; the date token is the first
  such token, and the tokens that follow it are
  \<open>tl (dropWhile (\<lambda>t. \<not> date_match t) (str_split line))\<close>. Then \<open>parse_data_line\<close> raises
  its \<open>ValueError\<close> if and only if the number of those tokens is not 7, and it returns a
  record if and only if the number is 7. A line with 6 trailing tokens and a line with 8
  are both rejected: neither is padded or truncated to 7.
\<close>

theorem parse_data_line_rejects_iff_not_seven:
  "(\<forall>line. (\<exists>t\<in>set (str_split line). date_match t) \<longrightarrow>
      ((\<exists>m. parse_data_line line = Inl (ValueError m))
         \<longleftrightarrow> length (tl (dropWhile (\<lambda>t. \<not> date_match t) (str_split line))) \<noteq> 7)
    \<and> ((\<exists>r. parse_data_line line = Inr r)
         \<longleftrightarrow> length (tl (dropWhile (\<lambda>t. \<not> date_match t) (str_split line))) = 7))
   \<and> parse_data_line ''ICVA0001 Jane Q Public 15-MAY-2025 450 88 90 85 92 88'' =
       Inl (ValueError
         ''Expected 7 scores, got 6 in line: ICVA0001 Jane Q Public 15-MAY-2025 450 88 90 85 92 88'')
   \<and> parse_data_line ''ICVA0001 Jane Q Public 15-MAY-2025 450 88 90 85 92 88 91 77'' =
       Inl (ValueError
         ''Expected 7 scores, got 8 in line: ICVA0001 Jane Q Public 15-MAY-2025 450 88 90 85 92 88 91 77'')"
proof (intro conjI allI impI)
  fix line
  assume "\<exists>t\<in>set (str_split line). date_match t"
  then obtain pre d post where sp: "str_split line = pre @ d # post"
    and d: "date_match d" and pre: "\<forall>t\<in>set pre. \<not> date_match t"
    using split_list_first_prop [of "str_split line" date_match] by blast
  have after: "tl (dropWhile (\<lambda>t. \<not> date_match t) (str_split line)) = post"
    unfolding sp using pre d by (rule tokens_after_first_date)
  note res = parse_data_line_at [OF sp pre d]
  show "(\<exists>m. parse_data_line line = Inl (ValueError m))
         \<longleftrightarrow> length (tl (dropWhile (\<lambda>t. \<not> date_match t) (str_split line))) \<noteq> 7"
    unfolding after res by simp
  show "(\<exists>r. parse_data_line line = Inr r)
         \<longleftrightarrow> length (tl (dropWhile (\<lambda>t. \<not> date_match t) (str_split line))) = 7"
    unfolding after res by simp
next
  show "parse_data_line ''ICVA0001 Jane Q Public 15-MAY-2025 450 88 90 85 92 88'' =
       Inl (ValueError
         ''Expected 7 scores, got 6 in line: ICVA0001 Jane Q Public 15-MAY-2025 450 88 90 85 92 88'')"
    by code_simp
next
  show "parse_data_line ''ICVA0001 Jane Q Public 15-MAY-2025 450 88 90 85 92 88 91 77'' =
       Inl (ValueError
         ''Expected 7 scores, got 8 in line: ICVA0001 Jane Q Public 15-MAY-2025 450 88 90 85 92 88 91 77'')"
    by code_simp
qed

text \<open>The equivalence at a line with five trailing tokens.\<close>

theorem parse_data_line_rejects_iff_not_seven_witness:
  "date_match ''02-FEB-2024''
   \<and> ''02-FEB-2024'' \<in> set (str_split ''ICVA7 Bo 02-FEB-2024 1 2 3 4 5'')
   \<and> length (tl (dropWhile (\<lambda>t. \<not> date_match t) (str_split ''ICVA7 Bo 02-FEB-2024 1 2 3 4 5''))) = 5
   \<and> (\<exists>m. parse_data_line ''ICVA7 Bo 02-FEB-2024 1 2 3 4 5'' = Inl (ValueError m))"
proof -
  have h: "date_match ''02-FEB-2024''
     \<and> ''02-FEB-2024'' \<in> set (str_split ''ICVA7 Bo 02-FEB-2024 1 2 3 4 5'')
     \<and> length (tl (dropWhile (\<lambda>t. \<not> date_match t) (str_split ''ICVA7 Bo 02-FEB-2024 1 2 3 4 5''))) = 5"
    by code_simp
  then have ex: "\<exists>t\<in>set (str_split ''ICVA7 Bo 02-FEB-2024 1 2 3 4 5''). date_match t"
    by blast
  have "(\<exists>m. parse_data_line ''ICVA7 Bo 02-FEB-2024 1 2 3 4 5'' = Inl (ValueError m))
         \<longleftrightarrow> length (tl (dropWhile (\<lambda>t. \<not> date_match t)
                 (str_split ''ICVA7 Bo 02-FEB-2024 1 2 3 4 5''))) \<noteq> 7"
    using parse_data_line_rejects_iff_not_seven [THEN conjunct1, rule_format, OF ex]
    by (rule conjunct1)
  with h show ?thesis by simp
qed

subsection \<open>Claim C3: a bad line does not abort the batch\<close>

text \<open>
  C3. A line whose date token is followed by a number of tokens other than 7 makes
  \<open>parse_data_line\<close> raise a \<open>ValueError\<close> whose message holds the number of tokens found
  and the line itself. The per-line loop catches the error, prints it and goes on: for every
  list of lines the records collected are exactly the records of the lines that parse, in
  order, one message is printed for each line that does not, and a failing line between
  two lists of lines leaves the records of both lists in place.
\<close>

theorem parse_loop_recovers_per_line:
  "(\<forall>line pre d post.
      str_split line = pre @ d # post \<and> (\<forall>t\<in>set pre. \<not> date_match t) \<and> date_match d
      \<and> length post \<noteq> 7
      \<longrightarrow> parse_data_line line =
            Inl (ValueError (''Expected 7 scores, got '' @ str_nat (length post)
                             @ '' in line: '' @ line)))
   \<and> (\<forall>lines. fst (parse_loop lines) =
        List.map_filter (\<lambda>l. case parse_data_line l of Inr r \<Rightarrow> Some r | Inl e \<Rightarrow> None) lines)
   \<and> (\<forall>lines. snd (parse_loop lines) =
        List.map_filter (\<lambda>l. case parse_data_line l of
            Inr r \<Rightarrow> None
          | Inl e \<Rightarrow> Some (''Error parsing line: '' @ l @ [CHR 0x0A] @ exc_str e)) lines)
   \<and> (\<forall>before bad after e. parse_data_line bad = Inl e \<longrightarrow>
        fst (parse_loop (before @ bad # after))
          = fst (parse_loop before) @ fst (parse_loop after)
        \<and> snd (parse_loop (before @ bad # after))
          = snd (parse_loop before) @ [''Error parsing line: '' @ bad @ [CHR 0x0A] @ exc_str e]
            @ snd (parse_loop after))"
proof (intro conjI allI impI)
  fix line pre d post
  assume "str_split line = pre @ d # post \<and> (\<forall>t\<in>set pre. \<not> date_match t) \<and> date_match d
      \<and> length post \<noteq> 7"
  then show "parse_data_line line =
            Inl (ValueError (''Expected 7 scores, got '' @ str_nat (length post)
                             @ '' in line: '' @ line))"
    by (simp add: parse_data_line_at [of line pre d post])
next
  fix lines
  show "fst (parse_loop lines) =
        List.map_filter (\<lambda>l. case parse_data_line l of Inr r \<Rightarrow> Some r | Inl e \<Rightarrow> None) lines"
    by (simp add: parse_loop_eq)
  show "snd (parse_loop lines) =
        List.map_filter (\<lambda>l. case parse_data_line l of
            Inr r \<Rightarrow> None
          | Inl e \<Rightarrow> Some (''Error parsing line: '' @ l @ [CHR 0x0A] @ exc_str e)) lines"
    by (simp add: parse_loop_eq)
next
  fix before bad after e
  assume bad: "parse_data_line bad = Inl e"
  show "fst (parse_loop (before @ bad # after))
          = fst (parse_loop before) @ fst (parse_loop after)"
    by (simp add: parse_loop_eq List.map_filter_def bad)
  show "snd (parse_loop (before @ bad # after))
          = snd (parse_loop before) @ [''Error parsing line: '' @ bad @ [CHR 0x0A] @ exc_str e]
            @ snd (parse_loop after)"
    by (simp add: parse_loop_eq List.map_filter_def bad)
qed

text \<open>A batch of three lines whose middle line has six trailing tokens.\<close>

theorem parse_loop_recovers_per_line_witness:
  "parse_data_line ''ICVA2 B 01-JAN-2024 1 2 3 4 5 6''
     = Inl (ValueError ''Expected 7 scores, got 6 in line: ICVA2 B 01-JAN-2024 1 2 3 4 5 6'')
   \<and> fst (parse_loop ([''ICVA1 A 01-JAN-2024 1 2 3 4 5 6 7'']
                       @ ''ICVA2 B 01-JAN-2024 1 2 3 4 5 6''
                       # [''ICVA3 C 01-JAN-2024 7 6 5 4 3 2 1'']))
     = fst (parse_loop [''ICVA1 A 01-JAN-2024 1 2 3 4 5 6 7''])
       @ fst (parse_loop [''ICVA3 C 01-JAN-2024 7 6 5 4 3 2 1''])
   \<and> length (fst (parse_loop [''ICVA1 A 01-JAN-2024 1 2 3 4 5 6 7'',
                               ''ICVA2 B 01-JAN-2024 1 2 3 4 5 6'',
                               ''ICVA3 C 01-JAN-2024 7 6 5 4 3 2 1''])) = 2"
proof -
  have bad: "parse_data_line ''ICVA2 B 01-JAN-2024 1 2 3 4 5 6''
     = Inl (ValueError ''Expected 7 scores, got 6 in line: ICVA2 B 01-JAN-2024 1 2 3 4 5 6'')"
    by code_simp
  have two: "length (fst (parse_loop [''ICVA1 A 01-JAN-2024 1 2 3 4 5 6 7'',
                               ''ICVA2 B 01-JAN-2024 1 2 3 4 5 6'',
                               ''ICVA3 C 01-JAN-2024 7 6 5 4 3 2 1''])) = 2"
    by code_simp
  have "fst (parse_loop ([''ICVA1 A 01-JAN-2024 1 2 3 4 5 6 7'']
                       @ ''ICVA2 B 01-JAN-2024 1 2 3 4 5 6''
                       # [''ICVA3 C 01-JAN-2024 7 6 5 4 3 2 1'']))
     = fst (parse_loop [''ICVA1 A 01-JAN-2024 1 2 3 4 5 6 7''])
       @ fst (parse_loop [''ICVA3 C 01-JAN-2024 7 6 5 4 3 2 1''])"
    using parse_loop_recovers_per_line [THEN conjunct2, THEN conjunct2, THEN conjunct2,
        rule_format, OF bad]
    by (rule conjunct1)
  with bad two show ?thesis by (intro conjI)
qed

subsection \<open>Claim C9: a prefix match, scanned from the id token\<close>

text \<open>
  C9. The date test looks at the first eleven characters of a token only: a token matches
  exactly when it starts with two digits, a hyphen, three capitals, a hyphen and four
  digits, whatever follows, so a matching token still matches with characters appended;
  \<open>15-MAY-20256\<close> is taken as the test date. The scan for the first matching token starts
  at index 0, the id token: when the first token of a line matches, it is both the id and
  the test date (and the name is empty).
\<close>

theorem date_match_prefix_scan_from_id:
  "(\<forall>token. date_match token \<longleftrightarrow>
      (\<exists>d1 d2 u1 u2 u3 y1 y2 y3 y4 rest.
        token = d1 # d2 # CHR ''-'' # u1 # u2 # u3 # CHR ''-'' # y1 # y2 # y3 # y4 # rest
        \<and> isdigit d1 \<and> isdigit d2 \<and> isupper_ascii u1 \<and> isupper_ascii u2 \<and> isupper_ascii u3
        \<and> isdigit y1 \<and> isdigit y2 \<and> isdigit y3 \<and> isdigit y4))
   \<and> (\<forall>token extra. date_match token \<longrightarrow> date_match (token @ extra))
   \<and> parse_data_line ''ICVA0001 Jane Q Public 15-MAY-20256 450 88 90 85 92 88 91'' =
       Inr [(''ICVA ID'', ''ICVA0001''), (''Full Name'', ''Jane Q Public''),
            (''Test Date'', ''15-MAY-20256''),
            (''Scale Score'', ''450''), (''Total Percent Correct'', ''88''), (''Anatomy'', ''90''),
            (''Physiology'', ''85''), (''Pharmacology'', ''92''), (''Microbiology'', ''88''),
            (''Pathology'', ''91'')]
   \<and> (\<forall>line t rest. str_split line = t # rest \<and> date_match t \<longrightarrow>
        first_index date_match (str_split line) = Some 0)
   \<and> (\<forall>line t s0 s1 s2 s3 s4 s5 s6.
        str_split line = [t, s0, s1, s2, s3, s4, s5, s6] \<and> date_match t \<longrightarrow>
        parse_data_line line =
          Inr [(''ICVA ID'', t), (''Full Name'', []), (''Test Date'', t),
               (''Scale Score'', s0), (''Total Percent Correct'', s1), (''Anatomy'', s2),
               (''Physiology'', s3), (''Pharmacology'', s4), (''Microbiology'', s5),
               (''Pathology'', s6)])"
proof (intro conjI allI impI)
  fix token
  show "date_match token \<longleftrightarrow>
      (\<exists>d1 d2 u1 u2 u3 y1 y2 y3 y4 rest.
        token = d1 # d2 # CHR ''-'' # u1 # u2 # u3 # CHR ''-'' # y1 # y2 # y3 # y4 # rest
        \<and> isdigit d1 \<and> isdigit d2 \<and> isupper_ascii u1 \<and> isupper_ascii u2 \<and> isupper_ascii u3
        \<and> isdigit y1 \<and> isdigit y2 \<and> isdigit y3 \<and> isdigit y4)"
    by (rule date_match_iff)
next
  fix token extra
  assume "date_match token"
  then show "date_match (token @ extra)"
    unfolding date_match_def by (rule re_match_append)
next
  show "parse_data_line ''ICVA0001 Jane Q Public 15-MAY-20256 450 88 90 85 92 88 91'' =
       Inr [(''ICVA ID'', ''ICVA0001''), (''Full Name'', ''Jane Q Public''),
            (''Test Date'', ''15-MAY-20256''),
            (''Scale Score'', ''450''), (''Total Percent Correct'', ''88''), (''Anatomy'', ''90''),
            (''Physiology'', ''85''), (''Pharmacology'', ''92''), (''Microbiology'', ''88''),
            (''Pathology'', ''91'')]"
    by code_simp
next
  fix line t rest
  assume "str_split line = t # rest \<and> date_match t"
  then show "first_index date_match (str_split line) = Some 0"
    by simp
next
  fix line t s0 s1 s2 s3 s4 s5 s6
  assume h: "str_split line = [t, s0, s1, s2, s3, s4, s5, s6] \<and> date_match t"
  then have sp: "str_split line = [] @ t # [s0, s1, s2, s3, s4, s5, s6]"
    and d: "date_match t"
    by simp_all
  have pre: "\<forall>x\<in>set []. \<not> date_match x"
    by simp
  show "parse_data_line line =
          Inr [(''ICVA ID'', t), (''Full Name'', []), (''Test Date'', t),
               (''Scale Score'', s0), (''Total Percent Correct'', s1), (''Anatomy'', s2),
               (''Physiology'', s3), (''Pharmacology'', s4), (''Microbiology'', s5),
               (''Pathology'', s6)]"
    by (simp add: parse_data_line_at [OF sp pre d])
qed

text \<open>A line that starts with a date: the date is taken as the id as well.\<close>

theorem date_match_prefix_scan_from_id_witness:
  "date_match ''15-MAY-2025''
   \<and> date_match (''15-MAY-2025'' @ ''6'')
   \<and> str_split ''15-MAY-2025 450 88 90 85 92 88 91''
       = [''15-MAY-2025'', ''450'', ''88'', ''90'', ''85'', ''92'', ''88'', ''91'']
   \<and> parse_data_line ''15-MAY-2025 450 88 90 85 92 88 91'' =
       Inr [(''ICVA ID'', ''15-MAY-2025''), (''Full Name'', []), (''Test Date'', ''15-MAY-2025''),
            (''Scale Score'', ''450''), (''Total Percent Correct'', ''88''), (''Anatomy'', ''90''),
            (''Physiology'', ''85''), (''Pharmacology'', ''92''), (''Microbiology'', ''88''),
            (''Pathology'', ''91'')]"
proof -
  have d: "date_match ''15-MAY-2025''"
    by code_simp
  have sp: "str_split ''15-MAY-2025 450 88 90 85 92 88 91''
       = [''15-MAY-2025'', ''450'', ''88'', ''90'', ''85'', ''92'', ''88'', ''91'']"
    by code_simp
  have ext: "date_match (''15-MAY-2025'' @ ''6'')"
    using date_match_prefix_scan_from_id [THEN conjunct2, THEN conjunct1, rule_format, OF d] .
  have "parse_data_line ''15-MAY-2025 450 88 90 85 92 88 91'' =
       Inr [(''ICVA ID'', ''15-MAY-2025''), (''Full Name'', []), (''Test Date'', ''15-MAY-2025''),
            (''Scale Score'', ''450''), (''Total Percent Correct'', ''88''), (''Anatomy'', ''90''),
            (''Physiology'', ''85''), (''Pharmacology'', ''92''), (''Microbiology'', ''88''),
            (''Pathology'', ''91'')]"
    by (rule date_match_prefix_scan_from_id [THEN conjunct2, THEN conjunct2, THEN conjunct2,
          THEN conjunct2, rule_format]) (use sp d in blast)
  with d ext sp show ?thesis by (intro conjI)
qed

subsection \<open>Claim C10: a line with no date token\<close>

text \<open>
  C10. Every candidate line is stripped and starts with \<open>ICVA\<close>, so it has at least one
  token. On a candidate line none of whose tokens matches the date pattern,
  \<open>parse_data_line\<close> raises \<open>StopIteration\<close>, not the \<open>ValueError\<close> that names the line and a
  token count. The loop catches it: the line adds no record, one message is printed, and
  the lines before and after it are processed as they would be without it.
\<close>

theorem parse_data_line_no_date_stop_iteration:
  "(\<forall>lines. \<forall>l\<in>set (data_lines lines). str_startswith l ''ICVA'')
   \<and> (\<forall>line. str_startswith line ''ICVA'' \<and> (\<forall>t\<in>set (str_split line). \<not> date_match t)
        \<longrightarrow> parse_data_line line = Inl StopIteration
            \<and> (\<forall>m. parse_data_line line \<noteq> Inl (ValueError m))
            \<and> (\<forall>before after.
                  parse_loop (before @ line # after) =
                    (fst (parse_loop before) @ fst (parse_loop after),
                     snd (parse_loop before) @ [''Error parsing line: '' @ line @ [CHR 0x0A]]
                       @ snd (parse_loop after))))"
proof (intro conjI allI impI ballI)
  fix lines l
  assume "l \<in> set (data_lines lines)"
  then show "str_startswith l ''ICVA''"
    by (rule data_lines_startswith)
next
  fix line
  assume h: "str_startswith line ''ICVA'' \<and> (\<forall>t\<in>set (str_split line). \<not> date_match t)"
  then have ne: "str_split line \<noteq> []"
    by (simp add: startswith_split_nonempty)
  from h have none: "\<forall>t\<in>set (str_split line). \<not> date_match t"
    by simp
  show stop: "parse_data_line line = Inl StopIteration"
    using ne none by (rule parse_data_line_no_date)
  {
    fix m
    show "parse_data_line line \<noteq> Inl (ValueError m)"
      by (simp add: stop)
  }
  {
    fix before after
    show "parse_loop (before @ line # after) =
            (fst (parse_loop before) @ fst (parse_loop after),
             snd (parse_loop before) @ [''Error parsing line: '' @ line @ [CHR 0x0A]]
               @ snd (parse_loop after))"
      by (simp add: parse_loop_eq List.map_filter_def stop)
  }
qed

text \<open>A candidate line that ends after the name, between two good lines.\<close>

theorem parse_data_line_no_date_stop_iteration_witness:
  "str_startswith ''ICVA0002 John Doe'' ''ICVA''
   \<and> str_split ''ICVA0002 John Doe'' = [''ICVA0002'', ''John'', ''Doe'']
   \<and> parse_data_line ''ICVA0002 John Doe'' = Inl StopIteration
   \<and> parse_loop ([''ICVA1 A 01-JAN-2024 1 2 3 4 5 6 7''] @ ''ICVA0002 John Doe''
                   # [''ICVA3 C 01-JAN-2024 7 6 5 4 3 2 1'']) =
       (fst (parse_loop [''ICVA1 A 01-JAN-2024 1 2 3 4 5 6 7''])
          @ fst (parse_loop [''ICVA3 C 01-JAN-2024 7 6 5 4 3 2 1'']),
        snd (parse_loop [''ICVA1 A 01-JAN-2024 1 2 3 4 5 6 7''])
          @ [''Error parsing line: '' @ ''ICVA0002 John Doe'' @ [CHR 0x0A]]
          @ snd (parse_loop [''ICVA3 C 01-JAN-2024 7 6 5 4 3 2 1'']))"
proof -
  have sw: "str_startswith ''ICVA0002 John Doe'' ''ICVA''"
    by code_simp
  have sp: "str_split ''ICVA0002 John Doe'' = [''ICVA0002'', ''John'', ''Doe'']"
    by code_simp
  have nd: "\<not> date_match ''ICVA0002'' \<and> \<not> date_match ''John'' \<and> \<not> date_match ''Doe''"
    by code_simp
  have h: "str_startswith ''ICVA0002 John Doe'' ''ICVA''
           \<and> (\<forall>t\<in>set (str_split ''ICVA0002 John Doe''). \<not> date_match t)"
    unfolding sp using sw nd by simp
  note r = parse_data_line_no_date_stop_iteration [THEN conjunct2, rule_format, OF h]
  from r have stop: "parse_data_line ''ICVA0002 John Doe'' = Inl StopIteration"
    by (rule conjunct1)
  from r have loop: "parse_loop ([''ICVA1 A 01-JAN-2024 1 2 3 4 5 6 7''] @ ''ICVA0002 John Doe''
                   # [''ICVA3 C 01-JAN-2024 7 6 5 4 3 2 1'']) =
       (fst (parse_loop [''ICVA1 A 01-JAN-2024 1 2 3 4 5 6 7''])
          @ fst (parse_loop [''ICVA3 C 01-JAN-2024 7 6 5 4 3 2 1'']),
        snd (parse_loop [''ICVA1 A 01-JAN-2024 1 2 3 4 5 6 7''])
          @ [''Error parsing line: '' @ ''ICVA0002 John Doe'' @ [CHR 0x0A]]
          @ snd (parse_loop [''ICVA3 C 01-JAN-2024 7 6 5 4 3 2 1'']))"
    by blast
  from sw sp stop loop show ?thesis by (intro conjI)
qed


section \<open>Properties of the loader\<close>

subsection \<open>Auxiliary facts\<close>

lemma load_env_cases:
  "load_env dotenv_file env =
     (let getenv = load_dotenv dotenv_file env;
          missing = map fst (filter (\<lambda>(k, var). getenv var = None \<or> getenv var = Some [])
                      [(''host'', ''DB_HOST''), (''user'', ''DB_USER''),
                       (''password'', ''DB_PASS''), (''database'', ''DB_NAME'')])
      in if missing \<noteq> []
         then Inl (RuntimeError (''Missing required env vars: '' @ str_join '', '' missing))
         else Inr [(''host'', getenv ''DB_HOST''), (''user'', getenv ''DB_USER''),
                   (''password'', getenv ''DB_PASS''), (''database'', getenv ''DB_NAME''),
                   (''table'', getenv ''DB_TABLE'')])"
  by (simp add: load_env_def Let_def)

lemma sublist_str_join: "x \<in> set xs \<Longrightarrow> sublist x (str_join sep xs)"
proof (induction sep xs rule: str_join.induct)
  case (1 sep)
  then show ?case by simp
next
  case (2 sep y)
  then show ?case by simp
next
  case (3 sep y z zs)
  show ?case
  proof (cases "x = y")
    case True
    then show ?thesis by (simp add: sublist_append_rightI)
  next
    case False
    with 3 have "sublist x (str_join sep (z # zs))" by simp
    then obtain ps ss where "str_join sep (z # zs) = ps @ x @ ss"
      unfolding sublist_def by blast
    then have "(y @ sep) @ str_join sep (z # zs) = (y @ sep @ ps) @ x @ ss"
      by simp
    then have "sublist x ((y @ sep) @ str_join sep (z # zs))"
      unfolding sublist_def by blast
    then show ?thesis by simp
  qed
qed

lemma convert_column_length:
  "convert_column conv col = Inr ds \<Longrightarrow> length ds = length col"
  by (induction col arbitrary: ds) (auto split: sum.splits)

lemma convert_column_nth:
  "convert_column conv col = Inr ds \<Longrightarrow> i < length col \<Longrightarrow> conv (col ! i) = Inr (ds ! i)"
proof (induction col arbitrary: ds i)
  case Nil
  then show ?case by simp
next
  case (Cons c cs)
  then show ?case
    by (cases i) (auto split: sum.splits)
qed

lemma set_column_names: "map fst (set_column name col df) = map fst df"
  by (induction df) (auto simp: set_column_def)

lemma set_column_nth:
  "i < length df \<Longrightarrow>
     set_column name col df ! i = (if fst (df ! i) = name then (name, col) else df ! i)"
  by (auto simp: set_column_def split: prod.splits)

lemma normalize_dates_cases:
  "normalize_dates conv df = Inr df' \<Longrightarrow>
     (map_of df ''test_date'' = None \<and> df' = df)
   \<or> (\<exists>col dates. map_of df ''test_date'' = Some col \<and> convert_column conv col = Inr dates
          \<and> df' = set_column ''test_date'' dates df)"
  by (auto simp: normalize_dates_def split: option.splits sum.splits)

subsection \<open>Claim C4: the table name has no default\<close>

text \<open>
  C4. The claim (with the docstring of the loader, \<open>DB_TABLE=vea_2025 # optional; defaults
  to vea_2025 if omitted\<close>) says that a configuration without \<open>DB_TABLE\<close> uses the table
  name \<open>vea_2025\<close>. \<open>load_env\<close> reads the variable with \<open>os.getenv("DB_TABLE")\<close> and no
  default: with the four required settings of the docstring and no \<open>DB_TABLE\<close>, it
  returns a configuration whose table is \<open>None\<close>, and the name that \<open>main\<close> formats
  into its statements is the text \<open>None\<close>.
\<close>

theorem load_env_table_unset_is_None:
  "load_env (Some [(''DB_HOST'', ''cvmdb.westernu.edu''), (''DB_USER'', ''your_user''),
                   (''DB_PASS'', ''your_password''), (''DB_NAME'', ''cvm_prod'')]) Map.empty
     = Inr [(''host'', Some ''cvmdb.westernu.edu''), (''user'', Some ''your_user''),
            (''password'', Some ''your_password''), (''database'', Some ''cvm_prod''),
            (''table'', None)]
   \<and> cfg_str [(''host'', Some ''cvmdb.westernu.edu''), (''user'', Some ''your_user''),
               (''password'', Some ''your_password''), (''database'', Some ''cvm_prod''),
               (''table'', None)] ''table'' = ''None''"
  by code_simp

subsection \<open>Claim C6: a missing setting stops the loader\<close>

lemma main_missing_setting:
  fixes w :: world
  assumes g: "getenv = load_dotenv (dotenv w) (environ w)"
    and m: "missing = map fst (filter (\<lambda>(k, var). getenv var = None \<or> getenv var = Some [])
                    [(''host'', ''DB_HOST''), (''user'', ''DB_USER''),
                     (''password'', ''DB_PASS''), (''database'', ''DB_NAME'')])"
    and ex: "\<exists>var\<in>set [''DB_HOST'', ''DB_USER'', ''DB_PASS'', ''DB_NAME''].
            getenv var = None \<or> getenv var = Some []"
  shows "main csv_path w =
           (Inl (RuntimeError (''Missing required env vars: '' @ str_join '', '' missing)),
            w\<lparr>environ := getenv, io_log := io_log w @ [ReadSettings]\<rparr>)"
    and "missing \<noteq> []"
    and "\<forall>k\<in>set missing.
           sublist k (''Missing required env vars: '' @ str_join '', '' missing)"
proof -
  from ex show ne: "missing \<noteq> []"
    unfolding m by auto
  have env: "load_env (dotenv w) (environ w) =
      Inl (RuntimeError (''Missing required env vars: '' @ str_join '', '' missing))"
    unfolding m g load_env_cases Let_def using ne [unfolded m g] by (rule if_P)
  show "main csv_path w =
           (Inl (RuntimeError (''Missing required env vars: '' @ str_join '', '' missing)),
            w\<lparr>environ := getenv, io_log := io_log w @ [ReadSettings]\<rparr>)"
    unfolding main_def env g by simp
  show "\<forall>k\<in>set missing.
      sublist k (''Missing required env vars: '' @ str_join '', '' missing)"
  proof
    fix k
    assume "k \<in> set missing"
    then have "sublist k (str_join '', '' missing)"
      by (rule sublist_str_join)
    then obtain ps ss where "str_join '', '' missing = ps @ k @ ss"
      unfolding sublist_def by blast
    then have "''Missing required env vars: '' @ str_join '', '' missing
                 = (''Missing required env vars: '' @ ps) @ k @ ss"
      by simp
    then show "sublist k (''Missing required env vars: '' @ str_join '', '' missing)"
      unfolding sublist_def by blast
  qed
qed

text \<open>
  C6, as stated, fails. The loader starts with its entry block, which tests that the CSV
  path exists before it calls \<open>main\<close>. At \<open>world_missing_settings_no_csv\<close> the password is
  missing and the database name is empty, so \<open>load_env\<close> would raise the error that names
  them; but the CSV file does not exist, and the loader exits with status 1 and the line
  about the CSV file on the error stream. It has read no setting and names none.
\<close>

theorem loader_missing_setting_no_csv_counterexample:
  "load_env (dotenv world_missing_settings_no_csv) (environ world_missing_settings_no_csv)
     = Inl (RuntimeError ''Missing required env vars: password, database'')
   \<and> fst (loader_script None world_missing_settings_no_csv) = SysExit 1
   \<and> stderr (snd (loader_script None world_missing_settings_no_csv))
       = [[CHR 0xE2, CHR 0x9D, CHR 0x8C] @ '' CSV file '' @ [CHR 0x27]
          @ ''vea_2025_results.csv'' @ [CHR 0x27] @ '' not found.'']
   \<and> io_log (snd (loader_script None world_missing_settings_no_csv))
       = [CsvExists ''vea_2025_results.csv'']
   \<and> environ (snd (loader_script None world_missing_settings_no_csv)) ''DB_HOST'' = None"
  by (simp add: loader_script_def world_missing_settings_no_csv_def world_missing_settings_def
        default_csv_def load_env_def load_dotenv_def Let_def)

text \<open>
  C6, amended. Let one of the four required variables (\<open>DB_HOST\<close>, \<open>DB_USER\<close>, \<open>DB_PASS\<close>,
  \<open>DB_NAME\<close>) be unset or empty once the settings file has been read, and let the CSV file
  that the command line names (or the default one) exist. Then the loader ends with the
  \<open>RuntimeError\<close> whose message is \<open>Missing required env vars:\<close> followed by the names of
  all the missing settings (\<open>host\<close>, \<open>user\<close>, \<open>password\<close>, \<open>database\<close>), each of which occurs in
  the message. The world it leaves differs from the one it found only by the settings read
  into the environment and by the access log, which holds the test that the CSV file
  exists and the reading of the settings file and nothing else: the CSV file is not read,
  no connection to the database is opened, the tables are as they were and nothing is
  printed.
\<close>

theorem loader_missing_setting_aborts_first:
  "\<forall>csv_arg (w :: world) csv getenv missing.
     csv = (case csv_arg of None \<Rightarrow> default_csv | Some path \<Rightarrow> path)
     \<and> files w csv \<noteq> None
     \<and> getenv = load_dotenv (dotenv w) (environ w)
     \<and> missing = map fst (filter (\<lambda>(k, var). getenv var = None \<or> getenv var = Some [])
                    [(''host'', ''DB_HOST''), (''user'', ''DB_USER''),
                     (''password'', ''DB_PASS''), (''database'', ''DB_NAME'')])
     \<and> (\<exists>var\<in>set [''DB_HOST'', ''DB_USER'', ''DB_PASS'', ''DB_NAME''].
            getenv var = None \<or> getenv var = Some [])
     \<longrightarrow> loader_script csv_arg w =
           (Raised (RuntimeError (''Missing required env vars: '' @ str_join '', '' missing)),
            w\<lparr>environ := getenv, io_log := io_log w @ [CsvExists csv, ReadSettings]\<rparr>)
         \<and> missing \<noteq> []
         \<and> (\<forall>k\<in>set missing.
               sublist k (''Missing required env vars: '' @ str_join '', '' missing))"
proof (intro allI impI)
  fix csv_arg and w :: world and csv getenv missing
  assume h: "csv = (case csv_arg of None \<Rightarrow> default_csv | Some path \<Rightarrow> path)
     \<and> files w csv \<noteq> None
     \<and> getenv = load_dotenv (dotenv w) (environ w)
     \<and> missing = map fst (filter (\<lambda>(k, var). getenv var = None \<or> getenv var = Some [])
                    [(''host'', ''DB_HOST''), (''user'', ''DB_USER''),
                     (''password'', ''DB_PASS''), (''database'', ''DB_NAME'')])
     \<and> (\<exists>var\<in>set [''DB_HOST'', ''DB_USER'', ''DB_PASS'', ''DB_NAME''].
            getenv var = None \<or> getenv var = Some [])"
  then have csv: "csv = (case csv_arg of None \<Rightarrow> default_csv | Some path \<Rightarrow> path)"
    and there: "files w csv \<noteq> None"
    and g: "getenv = load_dotenv (dotenv w) (environ w)"
    and m: "missing = map fst (filter (\<lambda>(k, var). getenv var = None \<or> getenv var = Some [])
                    [(''host'', ''DB_HOST''), (''user'', ''DB_USER''),
                     (''password'', ''DB_PASS''), (''database'', ''DB_NAME'')])"
    and ex: "\<exists>var\<in>set [''DB_HOST'', ''DB_USER'', ''DB_PASS'', ''DB_NAME''].
            getenv var = None \<or> getenv var = Some []"
    by blast+
  define w0 where "w0 = w\<lparr>io_log := io_log w @ [CsvExists csv]\<rparr>"
  have g0: "getenv = load_dotenv (dotenv w0) (environ w0)"
    by (simp add: g w0_def)
  have run: "main csv w0 =
           (Inl (RuntimeError (''Missing required env vars: '' @ str_join '', '' missing)),
            w0\<lparr>environ := getenv, io_log := io_log w0 @ [ReadSettings]\<rparr>)"
    using g0 m ex by (rule main_missing_setting(1))
  have ne: "missing \<noteq> []"
    using g m ex by (rule main_missing_setting(2))
  have named: "\<forall>k\<in>set missing.
      sublist k (''Missing required env vars: '' @ str_join '', '' missing)"
    using g m ex by (rule main_missing_setting(3))
  have "loader_script csv_arg w =
          (case main csv w0 of (Inl e, w') \<Rightarrow> (Raised e, w') | (Inr u, w') \<Rightarrow> (Returned, w'))"
    using there by (auto simp: loader_script_def Let_def csv w0_def)
  also have "\<dots> =
           (Raised (RuntimeError (''Missing required env vars: '' @ str_join '', '' missing)),
            w0\<lparr>environ := getenv, io_log := io_log w0 @ [ReadSettings]\<rparr>)"
    by (simp only: run prod.case sum.case)
  also have "\<dots> =
           (Raised (RuntimeError (''Missing required env vars: '' @ str_join '', '' missing)),
            w\<lparr>environ := getenv, io_log := io_log w @ [CsvExists csv, ReadSettings]\<rparr>)"
    by (simp add: w0_def)
  finally have res: "loader_script csv_arg w =
           (Raised (RuntimeError (''Missing required env vars: '' @ str_join '', '' missing)),
            w\<lparr>environ := getenv, io_log := io_log w @ [CsvExists csv, ReadSettings]\<rparr>)" .
  from res ne named
  show "loader_script csv_arg w =
           (Raised (RuntimeError (''Missing required env vars: '' @ str_join '', '' missing)),
            w\<lparr>environ := getenv, io_log := io_log w @ [CsvExists csv, ReadSettings]\<rparr>)
         \<and> missing \<noteq> []
         \<and> (\<forall>k\<in>set missing.
               sublist k (''Missing required env vars: '' @ str_join '', '' missing))"
    by (intro conjI)
qed

text \<open>
  The theorem at \<open>world_missing_settings\<close>, where the CSV file exists: the message names
  both missing settings.
\<close>

theorem loader_missing_setting_aborts_first_witness:
  "fst (loader_script None world_missing_settings)
     = Raised (RuntimeError ''Missing required env vars: password, database'')
   \<and> io_log (snd (loader_script None world_missing_settings))
       = [CsvExists ''vea_2025_results.csv'', ReadSettings]
   \<and> stdout (snd (loader_script None world_missing_settings)) = []
   \<and> stderr (snd (loader_script None world_missing_settings)) = []
   \<and> dom (database (snd (loader_script None world_missing_settings))) = {}"
proof -
  define getenv where "getenv = load_dotenv (dotenv world_missing_settings)
                                            (environ world_missing_settings)"
  have v: "getenv ''DB_HOST'' = Some ''cvmdb.westernu.edu'' \<and> getenv ''DB_USER'' = Some ''loader''
           \<and> getenv ''DB_PASS'' = None \<and> getenv ''DB_NAME'' = Some []"
    unfolding getenv_def world_missing_settings_def by (simp add: load_dotenv_def)
  define missing where
    "missing = map fst (filter (\<lambda>(k, var). getenv var = None \<or> getenv var = Some [])
                    [(''host'', ''DB_HOST''), (''user'', ''DB_USER''),
                     (''password'', ''DB_PASS''), (''database'', ''DB_NAME'')])"
  have mv: "missing = [''password'', ''database'']"
    unfolding missing_def using v by simp
  have ex: "\<exists>var\<in>set [''DB_HOST'', ''DB_USER'', ''DB_PASS'', ''DB_NAME''].
              getenv var = None \<or> getenv var = Some []"
    using v by simp
  have csv: "''vea_2025_results.csv''
               = (case None :: string option of None \<Rightarrow> default_csv | Some path \<Rightarrow> path)"
    by (simp add: default_csv_def)
  have there: "files world_missing_settings ''vea_2025_results.csv'' \<noteq> None"
    by (simp add: world_missing_settings_def)
  have "loader_script None world_missing_settings =
           (Raised (RuntimeError (''Missing required env vars: '' @ str_join '', '' missing)),
            world_missing_settings\<lparr>environ := getenv,
               io_log := io_log world_missing_settings
                           @ [CsvExists ''vea_2025_results.csv'', ReadSettings]\<rparr>)"
    using loader_missing_setting_aborts_first [rule_format,
        of "''vea_2025_results.csv''" None world_missing_settings getenv missing]
      csv there getenv_def missing_def ex
    by blast
  then show ?thesis
    unfolding mv by (simp add: world_missing_settings_def)
qed

subsection \<open>Claim C8: the date step touches one column\<close>

text \<open>
  C8. When the frame has no column named \<open>test_date\<close>, the date step returns the frame as it
  is. When it has one and the step succeeds, the frame keeps its column names in their
  order, every column with another name is unchanged, and the column \<open>test_date\<close> holds,
  cell by cell, the conversion of the cell that was there. This holds for every conversion
  of a cell, and so for the fixed format of the loader.
\<close>

theorem normalize_dates_frame:
  "\<forall>conv df.
     (map_of df ''test_date'' = None \<longrightarrow> normalize_dates conv df = Inr df)
   \<and> (\<forall>df'. normalize_dates conv df = Inr df' \<longrightarrow>
         map fst df' = map fst df
       \<and> (\<forall>i<length df. fst (df ! i) \<noteq> ''test_date'' \<longrightarrow> df' ! i = df ! i)
       \<and> (\<forall>i<length df. fst (df ! i) = ''test_date'' \<longrightarrow>
             (\<exists>col. map_of df ''test_date'' = Some col
                \<and> length (snd (df' ! i)) = length col
                \<and> (\<forall>j<length col. conv (col ! j) = Inr (snd (df' ! i) ! j)))))"
proof (intro allI conjI impI)
  fix conv :: "cell \<Rightarrow> py_exception + cell" and df :: dataframe
  assume "map_of df ''test_date'' = None"
  then show "normalize_dates conv df = Inr df"
    by (simp add: normalize_dates_def)
next
  fix conv :: "cell \<Rightarrow> py_exception + cell" and df df' :: dataframe
  assume n: "normalize_dates conv df = Inr df'"
  show "map fst df' = map fst df"
    using normalize_dates_cases [OF n] by (auto simp: set_column_names)
next
  fix conv :: "cell \<Rightarrow> py_exception + cell" and df df' :: dataframe and i
  assume n: "normalize_dates conv df = Inr df'" and i: "i < length df"
    and other: "fst (df ! i) \<noteq> ''test_date''"
  show "df' ! i = df ! i"
    using normalize_dates_cases [OF n] i other by (auto simp: set_column_nth)
next
  fix conv :: "cell \<Rightarrow> py_exception + cell" and df df' :: dataframe and i
  assume n: "normalize_dates conv df = Inr df'" and i: "i < length df"
    and td: "fst (df ! i) = ''test_date''"
  from i td have "''test_date'' \<in> fst ` set df"
    by (metis image_eqI nth_mem)
  then have "map_of df ''test_date'' \<noteq> None"
    by (simp add: map_of_eq_None_iff)
  with normalize_dates_cases [OF n] obtain col dates
    where col: "map_of df ''test_date'' = Some col"
      and conv: "convert_column conv col = Inr dates"
      and df': "df' = set_column ''test_date'' dates df"
    by auto
  have at: "snd (df' ! i) = dates"
    using i td by (simp add: df' set_column_nth)
  have "length dates = length col"
    using conv by (rule convert_column_length)
  moreover have "\<forall>j<length col. conv (col ! j) = Inr (dates ! j)"
    using conv by (simp add: convert_column_nth)
  ultimately show "\<exists>col. map_of df ''test_date'' = Some col
                \<and> length (snd (df' ! i)) = length col
                \<and> (\<forall>j<length col. conv (col ! j) = Inr (snd (df' ! i) ! j))"
    using col at by simp
qed

text \<open>
  The theorem at \<open>frame_without_date\<close>, which has no column \<open>test_date\<close>, and at
  \<open>frame_with_date\<close>, whose second column is the date.
\<close>

theorem normalize_dates_frame_witness:
  "normalize_dates to_date frame_without_date = Inr frame_without_date
   \<and> normalize_dates to_date frame_with_date
       = Inr [(''icva_id'', [Text ''ICVA0001'', Text ''ICVA0002'']),
              (''test_date'', [Date 2025 5 15, Date 2025 5 16]),
              (''vea_score'', [Text ''450'', Text ''460''])]
   \<and> map fst (projr (normalize_dates to_date frame_with_date)) = map fst frame_with_date
   \<and> projr (normalize_dates to_date frame_with_date) ! 0 = frame_with_date ! 0
   \<and> projr (normalize_dates to_date frame_with_date) ! 2 = frame_with_date ! 2"
proof -
  have absent: "map_of frame_without_date ''test_date'' = None"
    by (simp add: frame_without_date_def)
  have a: "normalize_dates to_date frame_without_date = Inr frame_without_date"
    using normalize_dates_frame [rule_format, THEN conjunct1, rule_format, OF absent] .
  have b: "normalize_dates to_date frame_with_date
       = Inr [(''icva_id'', [Text ''ICVA0001'', Text ''ICVA0002'']),
              (''test_date'', [Date 2025 5 15, Date 2025 5 16]),
              (''vea_score'', [Text ''450'', Text ''460''])]"
    by code_simp
  then have r: "normalize_dates to_date frame_with_date
                  = Inr (projr (normalize_dates to_date frame_with_date))"
    by simp
  note f = normalize_dates_frame [rule_format, THEN conjunct2, rule_format, OF r]
  have len: "length frame_with_date = 3"
    by (simp add: frame_with_date_def)
  have c: "map fst (projr (normalize_dates to_date frame_with_date)) = map fst frame_with_date"
    using f by (rule conjunct1)
  have d: "projr (normalize_dates to_date frame_with_date) ! 0 = frame_with_date ! 0"
    using f [THEN conjunct2, THEN conjunct1, rule_format, of 0]
    by (simp add: frame_with_date_def)
  have e: "projr (normalize_dates to_date frame_with_date) ! 2 = frame_with_date ! 2"
    using f [THEN conjunct2, THEN conjunct1, rule_format, of 2]
    by (simp add: frame_with_date_def)
  from a b c d e show ?thesis by (intro conjI)
qed

subsection \<open>Claim C5: a duplicate id aborts the batch\<close>

lemma map_of_row_at:
  "map_of (map (\<lambda>(name, col). (name, col ! i)) df) k = map_option (\<lambda>col. col ! i) (map_of df k)"
  by (induction df) auto

lemma df_rows_keys:
  "map (\<lambda>r. map_of r k) (df_rows df)
     = map (\<lambda>i. map_option (\<lambda>col. col ! i) (map_of df k)) [0..<nrows df]"
  by (simp add: df_rows_def map_of_row_at)

lemma map_of_set_column_other:
  "k \<noteq> name \<Longrightarrow> map_of (set_column name col df) k = map_of df k"
  by (induction df) (auto simp: set_column_def)

lemma nrows_set_column:
  assumes "map_of df name = Some old" and "length col = length old"
  shows "nrows (set_column name col df) = nrows df"
  using assms by (cases df) (auto simp: nrows_def set_column_def split: if_splits)

lemma normalize_dates_keeps:
  assumes "normalize_dates conv df0 = Inr df"
  shows "nrows df = nrows df0"
    and "k \<noteq> ''test_date'' \<Longrightarrow> map_of df k = map_of df0 k"
    and "map fst df = map fst df0"
proof -
  have "nrows df = nrows df0 \<and> (k \<noteq> ''test_date'' \<longrightarrow> map_of df k = map_of df0 k)
        \<and> map fst df = map fst df0"
  proof (cases "map_of df0 ''test_date''")
    case None
    with assms have "df = df0"
      by (simp add: normalize_dates_def)
    then show ?thesis by simp
  next
    case (Some col)
    with assms obtain dates where conv: "convert_column conv col = Inr dates"
      and df: "df = set_column ''test_date'' dates df0"
      by (auto simp: normalize_dates_def split: sum.splits)
    from conv have "length dates = length col"
      by (rule convert_column_length)
    with Some have "nrows (set_column ''test_date'' dates df0) = nrows df0"
      by (rule nrows_set_column)
    then show ?thesis
      by (simp add: df map_of_set_column_other set_column_names)
  qed
  then show "nrows df = nrows df0"
    and "k \<noteq> ''test_date'' \<Longrightarrow> map_of df k = map_of df0 k"
    and "map fst df = map fst df0"
    by simp_all
qed

lemma create_table_existing: "db name = Some t \<Longrightarrow> create_table name db = Inr db"
  by (simp add: create_table_def)

lemma to_sql_append_duplicate:
  assumes tbl: "db name = Some tbl" and pk: "tprimary tbl = Some k"
    and new: "Some key \<in> set (map (\<lambda>r. map_of r k) (df_rows df))"
    and old: "Some key \<in> set (map (\<lambda>r. map_of r k) (trows tbl))"
  shows "\<exists>e. to_sql_append name df db = Inl e
             \<and> (list_all (\<lambda>c. c \<in> set (tcolumns tbl)) (map fst df) \<longrightarrow>
                  (\<exists>m. e = IntegrityError m))"
proof -
  let ?new = "map (\<lambda>r. map_of r k) (df_rows df)"
  let ?old = "map (\<lambda>r. map_of r k) (trows tbl)"
  from new have rows: "nrows df \<noteq> 0"
    by (auto simp: df_rows_def)
  from new obtain col where col: "map_of df k = Some col"
    unfolding df_rows_keys by (cases "map_of df k") auto
  have some: "\<not> list_ex (\<lambda>v. v = None) ?new"
    unfolding df_rows_keys by (auto simp: col list_ex_iff)
  have dup: "list_ex (\<lambda>v. v \<in> set ?old) ?new"
    unfolding list_ex_iff using new old by blast
  show ?thesis
  proof (cases "list_ex (\<lambda>c. c \<notin> set (tcolumns tbl)) (map fst df)")
    case True
    then have "\<not> list_all (\<lambda>c. c \<in> set (tcolumns tbl)) (map fst df)"
      by (auto simp: list_ex_iff list_all_iff)
    moreover have "to_sql_append name df db = Inl (OperationalError ''Unknown column'')"
      using tbl rows True by (simp add: to_sql_append_def)
    ultimately show ?thesis by simp
  next
    case False
    show ?thesis
    proof (cases "list_ex (\<lambda>v. v = Some NaN) ?new")
      case True
      have "to_sql_append name df db = Inl (IntegrityError ''Column cannot be null'')"
        using tbl rows pk \<open>\<not> list_ex (\<lambda>c. c \<notin> set (tcolumns tbl)) (map fst df)\<close> some True
        by (simp add: to_sql_append_def Let_def)
      then show ?thesis by simp
    next
      case nonan: False
      have "to_sql_append name df db = Inl (IntegrityError ''Duplicate entry for key PRIMARY'')"
        using tbl rows pk False some nonan dup
        by (simp add: to_sql_append_def Let_def)
      then show ?thesis by simp
    qed
  qed
qed

text \<open>
  C5. Let the configuration be complete and name a table that exists with primary key
  \<open>icva_id\<close>, and let the file be read as a frame one of whose rows has, as its \<open>icva_id\<close>,
  the \<open>icva_id\<close> of a row of the table. Then \<open>main\<close> ends with an exception, the tables of the
  database are exactly as they were (the existing row is not overwritten, and no other row
  of the file is inserted either) and nothing is printed. When the date column is read
  without error and every column of the file is a column of the table, the exception is
  the \<open>IntegrityError\<close> of the insertion: the loader has not filtered the duplicate out.
\<close>

theorem main_duplicate_key_aborts:
  "\<forall>csv_path (w :: world) cfg name tbl df0 key.
      load_env (dotenv w) (environ w) = Inr cfg
    \<and> map_of cfg ''table'' = Some (Some name)
    \<and> database w name = Some tbl \<and> tprimary tbl = Some ''icva_id''
    \<and> read_csv (files w) csv_path = Inr df0
    \<and> (\<exists>r\<in>set (df_rows df0). map_of r ''icva_id'' = Some key)
    \<and> (\<exists>old\<in>set (trows tbl). map_of old ''icva_id'' = Some key)
    \<longrightarrow> (\<exists>e w'. main csv_path w = (Inl e, w')
            \<and> database w' = database w \<and> stdout w' = stdout w
            \<and> ((\<exists>df. normalize_dates to_date df0 = Inr df)
                 \<and> list_all (\<lambda>c. c \<in> set (tcolumns tbl)) (map fst df0)
                 \<longrightarrow> (\<exists>m. e = IntegrityError m)))"
proof (intro allI impI)
  fix csv_path and w :: world and cfg name tbl df0 key
  assume h: "load_env (dotenv w) (environ w) = Inr cfg
    \<and> map_of cfg ''table'' = Some (Some name)
    \<and> database w name = Some tbl \<and> tprimary tbl = Some ''icva_id''
    \<and> read_csv (files w) csv_path = Inr df0
    \<and> (\<exists>r\<in>set (df_rows df0). map_of r ''icva_id'' = Some key)
    \<and> (\<exists>old\<in>set (trows tbl). map_of old ''icva_id'' = Some key)"
  then have env: "load_env (dotenv w) (environ w) = Inr cfg"
    and tab: "map_of cfg ''table'' = Some (Some name)"
    and tbl: "database w name = Some tbl" and pk: "tprimary tbl = Some ''icva_id''"
    and csv: "read_csv (files w) csv_path = Inr df0"
    and new0: "Some key \<in> set (map (\<lambda>r. map_of r ''icva_id'') (df_rows df0))"
    and old: "Some key \<in> set (map (\<lambda>r. map_of r ''icva_id'') (trows tbl))"
    by force+
  have name: "cfg_str cfg ''table'' = name"
    by (simp add: cfg_str_def tab)
  show "\<exists>e w'. main csv_path w = (Inl e, w')
            \<and> database w' = database w \<and> stdout w' = stdout w
            \<and> ((\<exists>df. normalize_dates to_date df0 = Inr df)
                 \<and> list_all (\<lambda>c. c \<in> set (tcolumns tbl)) (map fst df0)
                 \<longrightarrow> (\<exists>m. e = IntegrityError m))"
  proof (cases "normalize_dates to_date df0")
    case (Inl e)
    then show ?thesis
      by (simp add: main_def env csv Let_def)
  next
    case (Inr df)
    have keys: "map (\<lambda>r. map_of r ''icva_id'') (df_rows df)
                  = map (\<lambda>r. map_of r ''icva_id'') (df_rows df0)"
      unfolding df_rows_keys
      by (simp add: normalize_dates_keeps(1) [OF Inr] normalize_dates_keeps(2) [OF Inr])
    have cols: "map fst df = map fst df0"
      using Inr by (rule normalize_dates_keeps(3))
    from new0 have new: "Some key \<in> set (map (\<lambda>r. map_of r ''icva_id'') (df_rows df))"
      by (simp only: keys)
    from to_sql_append_duplicate [where db = "database w" and name = name and tbl = tbl
        and k = "''icva_id''" and key = key and df = df, OF tbl pk new old]
    obtain e where ins: "to_sql_append name df (database w) = Inl e"
      and kind: "list_all (\<lambda>c. c \<in> set (tcolumns tbl)) (map fst df0)
                   \<longrightarrow> (\<exists>m. e = IntegrityError m)"
      unfolding cols by blast
    have ct: "create_table name (database w) = Inr (database w)"
      using tbl by (rule create_table_existing)
    have "\<exists>w'. main csv_path w = (Inl e, w') \<and> database w' = database w
                \<and> stdout w' = stdout w"
      by (simp add: main_def env csv Inr Let_def name ct tab ins)
    with kind show ?thesis by blast
  qed
qed

text \<open>
  The theorem at \<open>world_duplicate_id\<close>: the table holds \<open>ICVA0001\<close>, and the file holds
  \<open>ICVA0002\<close> and \<open>ICVA0001\<close>. Neither row of the file reaches the table.
\<close>

theorem main_duplicate_key_aborts_witness:
  "fst (main ''vea_2025_results.csv'' world_duplicate_id)
      = Inl (IntegrityError ''Duplicate entry for key PRIMARY'')
   \<and> database (snd (main ''vea_2025_results.csv'' world_duplicate_id))
      = database world_duplicate_id
   \<and> stdout (snd (main ''vea_2025_results.csv'' world_duplicate_id)) = []"
proof -
  let ?cfg = "[(''host'', Some ''cvmdb.westernu.edu''), (''user'', Some ''loader''),
               (''password'', Some ''secret''), (''database'', Some ''cvm_prod''),
               (''table'', Some ''vea_2025'')]"
  let ?df0 = "[(''icva_id'', [Text ''ICVA0002'', Text ''ICVA0001'']),
               (''full_name'', [Text ''Bob Roe'', Text ''Ann Poe''])]"
  let ?tbl = "vea_table\<lparr>trows := [[(''icva_id'', Text ''ICVA0001''),
                                     (''full_name'', Text ''Ann Lee'')]]\<rparr>"
  have env: "load_env (dotenv world_duplicate_id) (environ world_duplicate_id) = Inr ?cfg"
    by (simp add: world_duplicate_id_def load_env_def load_dotenv_def)
  have tab: "map_of ?cfg ''table'' = Some (Some ''vea_2025'')"
    by simp
  have tbl: "database world_duplicate_id ''vea_2025'' = Some ?tbl"
    by (simp add: world_duplicate_id_def)
  have pk: "tprimary ?tbl = Some ''icva_id''"
    by (simp add: vea_table_def)
  have csv: "read_csv (files world_duplicate_id) ''vea_2025_results.csv'' = Inr ?df0"
    unfolding world_duplicate_id_def by code_simp
  have new: "\<exists>r\<in>set (df_rows ?df0). map_of r ''icva_id'' = Some (Text ''ICVA0001'')"
    by (simp add: df_rows_def nrows_def upt_conv_Cons)
  have old: "\<exists>old\<in>set (trows ?tbl). map_of old ''icva_id'' = Some (Text ''ICVA0001'')"
    by simp
  have norm: "\<exists>df. normalize_dates to_date ?df0 = Inr df"
    by (simp add: normalize_dates_def)
  have known: "list_all (\<lambda>c. c \<in> set (tcolumns ?tbl)) (map fst ?df0)"
    by (simp add: vea_table_def)
  from main_duplicate_key_aborts [rule_format, of world_duplicate_id ?cfg "''vea_2025''" ?tbl
      "''vea_2025_results.csv''" ?df0 "Text ''ICVA0001''"] env tab tbl pk csv new old
  obtain e w' where m: "main ''vea_2025_results.csv'' world_duplicate_id = (Inl e, w')"
    and db: "database w' = database world_duplicate_id"
    and out: "stdout w' = stdout world_duplicate_id"
    and kind: "(\<exists>df. normalize_dates to_date ?df0 = Inr df)
                 \<and> list_all (\<lambda>c. c \<in> set (tcolumns ?tbl)) (map fst ?df0)
                 \<longrightarrow> (\<exists>m. e = IntegrityError m)"
    by blast
  have "fst (main ''vea_2025_results.csv'' world_duplicate_id)
      = Inl (IntegrityError ''Duplicate entry for key PRIMARY'')"
    by code_simp
  moreover have "stdout world_duplicate_id = []"
    by (simp add: world_duplicate_id_def)
  ultimately show ?thesis
    using m db out by simp
qed


section \<open>The file between the two scripts\<close>

subsection \<open>The tokenizer on the output of the writer\<close>

lemma tokenize_unquoted_run:
  "\<not> list_ex csv_special f \<Longrightarrow>
     tokenize IN_FIELD buf row (f @ rest) = tokenize IN_FIELD (buf @ f) row rest"
  by (induction f arbitrary: buf) (auto simp: csv_special_def)

lemma tokenize_quoted_run:
  "tokenize IN_QUOTED_FIELD buf row (csv_escape f @ CHR 0x22 # rest)
     = tokenize QUOTE_IN_QUOTED_FIELD (buf @ f) row rest"
  by (induction f arbitrary: buf) auto

lemma tokenize_field_comma:
  "tokenize START_FIELD [] row (csv_field f @ CHR '','' # rest)
     = tokenize START_FIELD [] (row @ [f]) rest"
proof (cases "list_ex csv_special f")
  case True
  then show ?thesis
    by (simp add: csv_field_def tokenize_quoted_run)
next
  case False
  show ?thesis
  proof (cases f)
    case Nil
    then show ?thesis by (simp add: csv_field_def)
  next
    case (Cons c cs)
    with False have c: "\<not> csv_special c" and cs: "\<not> list_ex csv_special cs"
      by simp_all
    have "tokenize START_FIELD [] row ((c # cs) @ CHR '','' # rest)
            = tokenize IN_FIELD [c] row (cs @ CHR '','' # rest)"
      using c by (simp add: csv_special_def)
    also have "\<dots> = tokenize IN_FIELD ([c] @ cs) row (CHR '','' # rest)"
      using cs by (rule tokenize_unquoted_run)
    also have "\<dots> = tokenize START_FIELD [] (row @ [c # cs]) rest"
      by simp
    finally show ?thesis
      using False Cons by (simp add: csv_field_def)
  qed
qed

lemma tokenize_field_crlf:
  "tokenize START_FIELD [] row (csv_field f @ CHR 0x0D # CHR 0x0A # rest)
     = end_line (row @ [f]) (tokenize START_RECORD [] [] rest)"
proof (cases "list_ex csv_special f")
  case True
  then show ?thesis
    by (simp add: csv_field_def tokenize_quoted_run)
next
  case False
  show ?thesis
  proof (cases f)
    case Nil
    then show ?thesis by (simp add: csv_field_def)
  next
    case (Cons c cs)
    with False have c: "\<not> csv_special c" and cs: "\<not> list_ex csv_special cs"
      by simp_all
    have "tokenize START_FIELD [] row ((c # cs) @ CHR 0x0D # CHR 0x0A # rest)
            = tokenize IN_FIELD [c] row (cs @ CHR 0x0D # CHR 0x0A # rest)"
      using c by (simp add: csv_special_def)
    also have "\<dots> = tokenize IN_FIELD ([c] @ cs) row (CHR 0x0D # CHR 0x0A # rest)"
      using cs by (rule tokenize_unquoted_run)
    also have "\<dots> = end_line (row @ [c # cs]) (tokenize START_RECORD [] [] rest)"
      by simp
    finally show ?thesis
      using False Cons by (simp add: csv_field_def)
  qed
qed

lemma tokenize_fields_crlf:
  "fs \<noteq> [] \<Longrightarrow>
     tokenize START_FIELD [] row (str_join '','' (map csv_field fs) @ CHR 0x0D # CHR 0x0A # rest)
       = end_line (row @ fs) (tokenize START_RECORD [] [] rest)"
proof (induction fs arbitrary: row)
  case Nil
  then show ?case by simp
next
  case (Cons f fs)
  show ?case
  proof (cases fs)
    case Nil
    then show ?thesis by (simp add: tokenize_field_crlf)
  next
    case (Cons g gs)
    have "tokenize START_FIELD [] row
            (str_join '','' (map csv_field (f # g # gs)) @ CHR 0x0D # CHR 0x0A # rest)
          = tokenize START_FIELD [] row
              (csv_field f @ CHR '','' #
                 (str_join '','' (map csv_field (g # gs)) @ CHR 0x0D # CHR 0x0A # rest))"
      by simp
    also have "\<dots> = tokenize START_FIELD [] (row @ [f])
                        (str_join '','' (map csv_field (g # gs)) @ CHR 0x0D # CHR 0x0A # rest)"
      by (rule tokenize_field_comma)
    also have "\<dots> = end_line ((row @ [f]) @ g # gs) (tokenize START_RECORD [] [] rest)"
      using Cons.IH [of "row @ [f]"] Cons by simp
    finally show ?thesis
      using Cons by simp
  qed
qed

lemma tokenize_blank_run:
  "\<not> list_ex csv_special g \<Longrightarrow>
     tokenize WHITESPACE_LINE buf [] (g @ CHR '','' # rest)
       = tokenize START_FIELD [] [buf @ g] rest"
proof (induction g arbitrary: buf)
  case Nil
  then show ?case by simp
next
  case (Cons c cs)
  then have c: "\<not> csv_special c" and cs: "\<not> list_ex csv_special cs"
    by simp_all
  show ?case
  proof (cases "c = CHR '' '' \<or> c = CHR 0x09")
    case True
    then have "tokenize WHITESPACE_LINE buf [] ((c # cs) @ CHR '','' # rest)
                 = tokenize WHITESPACE_LINE (buf @ [c]) [] (cs @ CHR '','' # rest)"
      by auto
    also have "\<dots> = tokenize START_FIELD [] [(buf @ [c]) @ cs] rest"
      using cs by (rule Cons.IH)
    finally show ?thesis by simp
  next
    case False
    then have "tokenize WHITESPACE_LINE buf [] ((c # cs) @ CHR '','' # rest)
                 = tokenize IN_FIELD (buf @ [c]) [] (cs @ CHR '','' # rest)"
      using c by (simp add: csv_special_def)
    also have "\<dots> = tokenize IN_FIELD ((buf @ [c]) @ cs) [] (CHR '','' # rest)"
      using cs by (rule tokenize_unquoted_run)
    also have "\<dots> = tokenize START_FIELD [] [(buf @ [c]) @ cs] rest"
      by simp
    finally show ?thesis by simp
  qed
qed

lemma tokenize_first_field:
  "tokenize START_RECORD [] [] (csv_field f @ CHR '','' # rest)
     = tokenize START_FIELD [] [f] rest"
proof (cases "list_ex csv_special f")
  case True
  then have "tokenize START_RECORD [] [] (csv_field f @ CHR '','' # rest)
               = tokenize START_FIELD [] [] (csv_field f @ CHR '','' # rest)"
    by (simp add: csv_field_def)
  then show ?thesis
    by (simp add: tokenize_field_comma)
next
  case False
  show ?thesis
  proof (cases f)
    case Nil
    then show ?thesis by (simp add: csv_field_def)
  next
    case (Cons c cs)
    with False have c: "\<not> csv_special c" and cs: "\<not> list_ex csv_special cs"
      by simp_all
    show ?thesis
    proof (cases "c = CHR '' '' \<or> c = CHR 0x09")
      case True
      then have "tokenize START_RECORD [] [] ((c # cs) @ CHR '','' # rest)
                   = tokenize WHITESPACE_LINE [c] [] (cs @ CHR '','' # rest)"
        by auto
      also have "\<dots> = tokenize START_FIELD [] [[c] @ cs] rest"
        using cs by (rule tokenize_blank_run)
      finally show ?thesis
        using False Cons by (simp add: csv_field_def)
    next
      case blank: False
      then have "tokenize START_RECORD [] [] ((c # cs) @ CHR '','' # rest)
                   = tokenize START_FIELD [] [] ((c # cs) @ CHR '','' # rest)"
        using c by (simp add: csv_special_def)
      also have "\<dots> = tokenize START_FIELD [] [] (csv_field (c # cs) @ CHR '','' # rest)"
        using False Cons by (simp add: csv_field_def)
      also have "\<dots> = tokenize START_FIELD [] ([] @ [c # cs]) rest"
        by (rule tokenize_field_comma)
      finally show ?thesis
        using False Cons by (simp add: csv_field_def)
    qed
  qed
qed

lemma tokenize_writerow:
  assumes "2 \<le> length flds"
  shows "tokenize START_RECORD [] [] (csv_writerow flds @ rest)
           = end_line flds (tokenize START_RECORD [] [] rest)"
proof -
  from assms obtain f g gs where flds: "flds = f # g # gs"
    by (cases flds; cases "tl flds") auto
  have "tokenize START_RECORD [] [] (csv_writerow flds @ rest)
          = tokenize START_RECORD [] []
              (csv_field f @ CHR '','' #
                 (str_join '','' (map csv_field (g # gs)) @ CHR 0x0D # CHR 0x0A # rest))"
    by (simp add: flds csv_writerow_def)
  also have "\<dots> = tokenize START_FIELD [] [f]
                      (str_join '','' (map csv_field (g # gs)) @ CHR 0x0D # CHR 0x0A # rest)"
    by (rule tokenize_first_field)
  also have "\<dots> = end_line ([f] @ g # gs) (tokenize START_RECORD [] [] rest)"
    by (rule tokenize_fields_crlf) simp
  finally show ?thesis
    by (simp add: flds)
qed

lemma tokenize_written_rows:
  "\<forall>flds\<in>set rows. 2 \<le> length flds \<Longrightarrow>
     tokenize START_RECORD [] [] (concat (map csv_writerow rows)) = Inr rows"
  by (induction rows) (simp_all add: tokenize_writerow end_line_def)

subsection \<open>Claim C7: writing the records and reading them back\<close>

lemma parse_data_line_keys: "parse_data_line line = Inr r \<Longrightarrow> map fst r = fieldnames"
  unfolding parse_data_line_def Let_def fieldnames_def
  by (auto split: list.splits option.splits if_splits)

lemma map_of_at_keys:
  "distinct (map fst r) \<Longrightarrow>
     map (\<lambda>k. case map_of r k of None \<Rightarrow> [] | Some v \<Rightarrow> v) (map fst r) = map snd r"
proof (induction r)
  case Nil
  then show ?case by simp
next
  case (Cons p r)
  obtain k v where p: "p = (k, v)"
    by (cases p)
  from Cons.prems have notin: "k \<notin> fst ` set r" and d: "distinct (map fst r)"
    by (simp_all add: p)
  have "map (\<lambda>x. case map_of ((k, v) # r) x of None \<Rightarrow> [] | Some w \<Rightarrow> w) (map fst r)
          = map (\<lambda>x. case map_of r x of None \<Rightarrow> [] | Some w \<Rightarrow> w) (map fst r)"
    using notin by (intro map_cong) auto
  with Cons.IH [OF d] show ?case
    by (simp add: p)
qed

lemma distinct_fieldnames: "distinct fieldnames"
  by (simp add: fieldnames_def)

lemma dict_to_list_parsed:
  assumes "map fst r = fieldnames"
  shows "dict_to_list fieldnames r = Inr (map snd r)"
proof -
  have "\<not> list_ex (\<lambda>k. k \<notin> set fieldnames) (map fst r)"
    unfolding assms by (simp add: list_ex_iff)
  moreover have "map (\<lambda>k. case map_of r k of None \<Rightarrow> [] | Some v \<Rightarrow> v) fieldnames = map snd r"
    using map_of_at_keys [of r] distinct_fieldnames by (simp add: assms)
  ultimately show ?thesis
    by (simp add: dict_to_list_def)
qed

lemma write_rows_parsed:
  "\<forall>r\<in>set rows. map fst r = fieldnames \<Longrightarrow>
     write_rows fieldnames rows = Inr (concat (map csv_writerow (map (map snd) rows)))"
  by (induction rows) (simp_all add: dict_to_list_parsed)

lemma read_back_parsed:
  assumes keys: "\<forall>r\<in>set rows. map fst r = fieldnames"
  shows "write_csv rows
           = Inr (concat (map csv_writerow (fieldnames # map (map snd) rows)))"
    and "read_csv_text (concat (map csv_writerow (fieldnames # map (map snd) rows)))
           = Inr (map (\<lambda>k. (fieldnames ! k, map (\<lambda>r. na_cell (snd (r ! k))) rows))
                      [0..<length fieldnames])"
proof -
  show "write_csv rows = Inr (concat (map csv_writerow (fieldnames # map (map snd) rows)))"
    by (simp add: write_csv_def write_rows_parsed [OF keys])
  have len: "\<forall>r\<in>set rows. length r = length fieldnames"
    using keys by (metis length_map)
  have ten: "length fieldnames = 10"
    by (simp add: fieldnames_def)
  have "\<forall>flds\<in>set (fieldnames # map (map snd) rows). 2 \<le> length flds"
    using len ten by auto
  then have tok: "tokenize START_RECORD [] []
                    (concat (map csv_writerow (fieldnames # map (map snd) rows)))
                  = Inr (fieldnames # map (map snd) rows)"
    by (rule tokenize_written_rows)
  have nolong: "\<not> list_ex (\<lambda>r. length fieldnames < length r) (map (map snd) rows)"
    using len by (auto simp: list_ex_iff)
  have cols: "map (\<lambda>r. if k < length r then na_cell (r ! k) else NaN) (map (map snd) rows)
                = map (\<lambda>r. na_cell (snd (r ! k))) rows"
    if "k < length fieldnames" for k
  proof -
    have "(if k < length (map snd r) then na_cell (map snd r ! k) else NaN)
            = na_cell (snd (r ! k))" if "r \<in> set rows" for r
      using that len \<open>k < length fieldnames\<close> by simp
    then show ?thesis
      by (simp add: comp_def)
  qed
  have "map (\<lambda>k. (fieldnames ! k,
                   map (\<lambda>r. if k < length r then na_cell (r ! k) else NaN) (map (map snd) rows)))
            [0..<length fieldnames]
        = map (\<lambda>k. (fieldnames ! k, map (\<lambda>r. na_cell (snd (r ! k))) rows))
            [0..<length fieldnames]"
  proof (rule map_cong [OF refl])
    fix k
    assume "k \<in> set [0..<length fieldnames]"
    then have "k < length fieldnames"
      by simp
    then show "(fieldnames ! k,
                map (\<lambda>r. if k < length r then na_cell (r ! k) else NaN) (map (map snd) rows))
               = (fieldnames ! k, map (\<lambda>r. na_cell (snd (r ! k))) rows)"
      by (simp only: cols)
  qed
  then show "read_csv_text (concat (map csv_writerow (fieldnames # map (map snd) rows)))
           = Inr (map (\<lambda>k. (fieldnames ! k, map (\<lambda>r. na_cell (snd (r ! k))) rows))
                      [0..<length fieldnames])"
    unfolding read_csv_text_def tok using nolong by simp
qed

text \<open>
  C7, as stated, fails: a line with no token between the id and the date is parsed into a
  record whose name is the empty text; the file has an empty field for it, and
  \<open>read_csv\<close> returns a missing value there, not the empty text.
\<close>

theorem csv_roundtrip_empty_name_counterexample:
  "parse_data_line ''ICVA0001 15-MAY-2025 450 88 90 85 92 88 91'' =
     Inr [(''ICVA ID'', ''ICVA0001''), (''Full Name'', []), (''Test Date'', ''15-MAY-2025''),
          (''Scale Score'', ''450''), (''Total Percent Correct'', ''88''), (''Anatomy'', ''90''),
          (''Physiology'', ''85''), (''Pharmacology'', ''92''), (''Microbiology'', ''88''),
          (''Pathology'', ''91'')]
   \<and> write_csv [[(''ICVA ID'', ''ICVA0001''), (''Full Name'', []),
                  (''Test Date'', ''15-MAY-2025''), (''Scale Score'', ''450''),
                  (''Total Percent Correct'', ''88''), (''Anatomy'', ''90''),
                  (''Physiology'', ''85''), (''Pharmacology'', ''92''),
                  (''Microbiology'', ''88''), (''Pathology'', ''91'')]] =
     Inr (''ICVA ID,Full Name,Test Date,Scale Score,Total Percent Correct,''
          @ ''Anatomy,Physiology,Pharmacology,Microbiology,Pathology'' @ [CHR 0x0D, CHR 0x0A]
          @ ''ICVA0001,,15-MAY-2025,450,88,90,85,92,88,91'' @ [CHR 0x0D, CHR 0x0A])
   \<and> read_csv_text
        (''ICVA ID,Full Name,Test Date,Scale Score,Total Percent Correct,''
          @ ''Anatomy,Physiology,Pharmacology,Microbiology,Pathology'' @ [CHR 0x0D, CHR 0x0A]
          @ ''ICVA0001,,15-MAY-2025,450,88,90,85,92,88,91'' @ [CHR 0x0D, CHR 0x0A]) =
     Inr [(''ICVA ID'', [Text ''ICVA0001'']), (''Full Name'', [NaN]),
          (''Test Date'', [Text ''15-MAY-2025'']), (''Scale Score'', [Text ''450'']),
          (''Total Percent Correct'', [Text ''88'']), (''Anatomy'', [Text ''90'']),
          (''Physiology'', [Text ''85'']), (''Pharmacology'', [Text ''92'']),
          (''Microbiology'', [Text ''88'']), (''Pathology'', [Text ''91''])]
   \<and> NaN \<noteq> Text []"
  by code_simp

text \<open>
  C7, amended. For every list of records that \<open>parse_data_line\<close> returns, the file written
  is read back as a frame with the ten columns of the header, in order, and one cell per
  record in each column. The cell of a record in a column is the missing value when the
  field of the record is empty or another of the texts that \<open>read_csv\<close> takes for a missing
  value, and is the text of the field, character for character, otherwise (before pandas
  infers a type for the column, which the model leaves out). The file is taken to be read
  in the encoding in which it was written.
\<close>

theorem csv_roundtrip_up_to_missing:
  "\<forall>rows. (\<forall>r\<in>set rows. \<exists>line. parse_data_line line = Inr r) \<longrightarrow>
     (\<exists>text df. write_csv rows = Inr text \<and> read_csv_text text = Inr df
        \<and> map fst df = fieldnames
        \<and> (\<forall>k<length fieldnames.
              length (snd (df ! k)) = length rows
            \<and> (\<forall>i<length rows.
                  fst (rows ! i ! k) = fieldnames ! k
                \<and> snd (df ! k) ! i = na_cell (snd (rows ! i ! k))
                \<and> (snd (rows ! i ! k) \<notin> set na_values
                     \<longrightarrow> snd (df ! k) ! i = Text (snd (rows ! i ! k))))))"
proof (intro allI impI)
  fix rows :: "row list"
  assume parsed: "\<forall>r\<in>set rows. \<exists>line. parse_data_line line = Inr r"
  then have keys: "\<forall>r\<in>set rows. map fst r = fieldnames"
    by (auto dest: parse_data_line_keys)
  define csv where "csv = concat (map csv_writerow (fieldnames # map (map snd) rows))"
  define df where "df = map (\<lambda>k. (fieldnames ! k, map (\<lambda>r. na_cell (snd (r ! k))) rows))
                            [0..<length fieldnames]"
  have w: "write_csv rows = Inr csv"
    unfolding csv_def using keys by (rule read_back_parsed(1))
  have r: "read_csv_text csv = Inr df"
    unfolding csv_def df_def using keys by (rule read_back_parsed(2))
  have names: "map fst df = fieldnames"
    unfolding df_def by (simp add: map_nth comp_def)
  have cells: "\<forall>k<length fieldnames.
              length (snd (df ! k)) = length rows
            \<and> (\<forall>i<length rows.
                  fst (rows ! i ! k) = fieldnames ! k
                \<and> snd (df ! k) ! i = na_cell (snd (rows ! i ! k))
                \<and> (snd (rows ! i ! k) \<notin> set na_values
                     \<longrightarrow> snd (df ! k) ! i = Text (snd (rows ! i ! k))))"
  proof (intro allI impI conjI)
    fix k
    assume k: "k < length fieldnames"
    then show "length (snd (df ! k)) = length rows"
      by (simp add: df_def)
    fix i
    assume i: "i < length rows"
    then have ki: "map fst (rows ! i) = fieldnames"
      using keys by simp
    then have "length (rows ! i) = length fieldnames"
      by (metis length_map)
    with k ki show "fst (rows ! i ! k) = fieldnames ! k"
      by (metis nth_map)
    show cell: "snd (df ! k) ! i = na_cell (snd (rows ! i ! k))"
      using k i by (simp add: df_def)
    assume "snd (rows ! i ! k) \<notin> set na_values"
    then show "snd (df ! k) ! i = Text (snd (rows ! i ! k))"
      by (simp add: cell na_cell_def)
  qed
  from w r names cells
  show "\<exists>text df. write_csv rows = Inr text \<and> read_csv_text text = Inr df
        \<and> map fst df = fieldnames
        \<and> (\<forall>k<length fieldnames.
              length (snd (df ! k)) = length rows
            \<and> (\<forall>i<length rows.
                  fst (rows ! i ! k) = fieldnames ! k
                \<and> snd (df ! k) ! i = na_cell (snd (rows ! i ! k))
                \<and> (snd (rows ! i ! k) \<notin> set na_values
                     \<longrightarrow> snd (df ! k) ! i = Text (snd (rows ! i ! k)))))"
    by blast
qed

text \<open>
  The theorem at \<open>sample_rows\<close>: the records of two lines, the second with a name that holds
  a double quote and a comma and so is quoted in the file.
\<close>

theorem csv_roundtrip_up_to_missing_witness:
  "parse_data_line ''ICVA0001 Jane Q Public 15-MAY-2025 450 88 90 85 92 88 91''
     = Inr (sample_rows ! 0)
   \<and> parse_data_line ''ICVA0002 O\"Neil, Bob 16-MAY-2025 451 87 89 84 91 87 90''
     = Inr (sample_rows ! 1)
   \<and> map fst (projr (read_csv_text (projr (write_csv sample_rows)))) = fieldnames
   \<and> snd (projr (read_csv_text (projr (write_csv sample_rows))) ! 1) ! 0 = Text ''Jane Q Public''
   \<and> snd (projr (read_csv_text (projr (write_csv sample_rows))) ! 1) ! 1
       = Text ''O\"Neil, Bob''"
proof -
  have p0: "parse_data_line ''ICVA0001 Jane Q Public 15-MAY-2025 450 88 90 85 92 88 91''
     = Inr (sample_rows ! 0)"
    by code_simp
  have p1: "parse_data_line ''ICVA0002 O\"Neil, Bob 16-MAY-2025 451 87 89 84 91 87 90''
     = Inr (sample_rows ! 1)"
    by code_simp
  have two: "sample_rows = [sample_rows ! 0, sample_rows ! 1]"
    by (simp add: sample_rows_def)
  have "\<forall>r\<in>set [sample_rows ! 0, sample_rows ! 1]. \<exists>line. parse_data_line line = Inr r"
    using p0 p1 by (metis empty_iff empty_set set_ConsD)
  then have parsed: "\<forall>r\<in>set sample_rows. \<exists>line. parse_data_line line = Inr r"
    by (subst two)
  from csv_roundtrip_up_to_missing [THEN spec, THEN mp, OF parsed]
  obtain csv df where w: "write_csv sample_rows = Inr csv"
    and r: "read_csv_text csv = Inr df"
    and names: "map fst df = fieldnames"
    and cells: "\<forall>k<length fieldnames.
              length (snd (df ! k)) = length sample_rows
            \<and> (\<forall>i<length sample_rows.
                  fst (sample_rows ! i ! k) = fieldnames ! k
                \<and> snd (df ! k) ! i = na_cell (snd (sample_rows ! i ! k))
                \<and> (snd (sample_rows ! i ! k) \<notin> set na_values
                     \<longrightarrow> snd (df ! k) ! i = Text (snd (sample_rows ! i ! k))))"
    by blast
  have df: "projr (read_csv_text (projr (write_csv sample_rows))) = df"
    by (simp add: w r)
  have k: "(1::nat) < length fieldnames"
    by (simp add: fieldnames_def)
  have len: "length sample_rows = 2"
    by (simp add: sample_rows_def)
  have c0: "snd (df ! 1) ! 0 = na_cell (snd (sample_rows ! 0 ! 1))"
    using cells k len by simp
  have c1: "snd (df ! 1) ! 1 = na_cell (snd (sample_rows ! 1 ! 1))"
    using cells k len by simp
  have v0: "na_cell (snd (sample_rows ! 0 ! 1)) = Text ''Jane Q Public''"
    by code_simp
  have v1: "na_cell (snd (sample_rows ! 1 ! 1)) = Text ''O\"Neil, Bob''"
    by code_simp
  from p0 p1 names c0 c1 v0 v1 show ?thesis
    by (simp only: df simp_thms)
qed

end
